theory Spec2Isabelle
  imports Main "HOL-Library.Sublist" "HOL-Library.Finite_Map"
begin

section \<open>Go strings and \<open>strings.TrimSpace\<close>\<close>

text \<open>
  A Go string is a sequence of bytes, here a \<open>string\<close> (a list of 8-bit characters).
  \<open>strings.TrimSpace\<close> removes the leading and the trailing white space as
  \<open>unicode.IsSpace\<close> defines it, decoding the bytes as UTF-8. A white-space rune in
  front of (or at the end of) a string is exactly one of the byte sequences below in front
  of (or at the end of) it: the decoder accepts shortest encodings only, these sequences
  are the encodings of U+0009..U+000D, U+0020, U+0085, U+00A0, U+1680, U+2000..U+200A,
  U+2028, U+2029, U+202F, U+205F and U+3000, and a byte that is not valid UTF-8 decodes to
  U+FFFD, which is no space.
\<close>

definition spaceEncodings :: "string list" where
  "spaceEncodings =
     [[CHR 0x09], [CHR 0x0A], [CHR 0x0B], [CHR 0x0C], [CHR 0x0D], [CHR 0x20],
      [CHR 0xC2, CHR 0x85], [CHR 0xC2, CHR 0xA0],
      [CHR 0xE1, CHR 0x9A, CHR 0x80],
      [CHR 0xE2, CHR 0x80, CHR 0x80], [CHR 0xE2, CHR 0x80, CHR 0x81],
      [CHR 0xE2, CHR 0x80, CHR 0x82], [CHR 0xE2, CHR 0x80, CHR 0x83],
      [CHR 0xE2, CHR 0x80, CHR 0x84], [CHR 0xE2, CHR 0x80, CHR 0x85],
      [CHR 0xE2, CHR 0x80, CHR 0x86], [CHR 0xE2, CHR 0x80, CHR 0x87],
      [CHR 0xE2, CHR 0x80, CHR 0x88], [CHR 0xE2, CHR 0x80, CHR 0x89],
      [CHR 0xE2, CHR 0x80, CHR 0x8A],
      [CHR 0xE2, CHR 0x80, CHR 0xA8], [CHR 0xE2, CHR 0x80, CHR 0xA9],
      [CHR 0xE2, CHR 0x80, CHR 0xAF], [CHR 0xE2, CHR 0x81, CHR 0x9F],
      [CHR 0xE3, CHR 0x80, CHR 0x80]]"

definition leadingSpace :: "string \<Rightarrow> string option" where
  "leadingSpace s = find (\<lambda>p. prefix p s) spaceEncodings"

definition trailingSpace :: "string \<Rightarrow> string option" where
  "trailingSpace s = find (\<lambda>p. suffix p s) spaceEncodings"

function TrimLeftSpace :: "string \<Rightarrow> string" where
  "TrimLeftSpace s =
     (case leadingSpace s of
        None \<Rightarrow> s
      | Some p \<Rightarrow> TrimLeftSpace (drop (length p) s))"
  by pat_completeness auto
termination
proof (relation "measure length")
  show "wf (measure length)" by simp
next
  fix s p
  assume "leadingSpace s = Some p"
  then have "p \<in> set spaceEncodings" and "prefix p s"
    unfolding leadingSpace_def by (auto simp: find_Some_iff)
  moreover from \<open>p \<in> set spaceEncodings\<close> have "p \<noteq> []"
    by (auto simp: spaceEncodings_def)
  ultimately have "p \<noteq> []" and "prefix p s" by simp_all
  then show "(drop (length p) s, s) \<in> measure length"
    by (auto simp: prefix_def)
qed

function TrimRightSpace :: "string \<Rightarrow> string" where
  "TrimRightSpace s =
     (case trailingSpace s of
        None \<Rightarrow> s
      | Some p \<Rightarrow> TrimRightSpace (take (length s - length p) s))"
  by pat_completeness auto
termination
proof (relation "measure length")
  show "wf (measure length)" by simp
next
  fix s p
  assume "trailingSpace s = Some p"
  then have "p \<in> set spaceEncodings" and "suffix p s"
    unfolding trailingSpace_def by (auto simp: find_Some_iff)
  moreover from \<open>p \<in> set spaceEncodings\<close> have "p \<noteq> []"
    by (auto simp: spaceEncodings_def)
  ultimately have "p \<noteq> []" and "suffix p s" by simp_all
  then show "(take (length s - length p) s, s) \<in> measure length"
    by (auto simp: suffix_def)
qed

declare TrimLeftSpace.simps [simp del]
declare TrimRightSpace.simps [simp del]

definition TrimSpace :: "string \<Rightarrow> string" where
  "TrimSpace s = TrimRightSpace (TrimLeftSpace s)"

text \<open>
  White space only, said without the trimming loops: the string is a concatenation of
  encodings of white-space runes (the empty string is the empty concatenation).
\<close>

definition whitespaceOnly :: "string \<Rightarrow> bool" where
  "whitespaceOnly s = (\<exists>ws. set ws \<subseteq> set spaceEncodings \<and> s = concat ws)"

section \<open>The flag set of a command (\<open>cobra.Command.Flags()\<close>)\<close>

text \<open>
  A flag of \<open>pflag\<close> carries its usage string, its current value (a string flag or a
  bool flag) and whether the command line set it. The flag set of a command maps the
  registered names to their flags; \<open>Lookup\<close> of a name that is not registered is
  \<open>nil\<close>, here \<open>None\<close>.
\<close>

datatype FlagValue = StringValue string | BoolValue bool

record Flag =
  Usage :: string
  Value :: FlagValue
  Changed :: bool

type_synonym Command = "string \<rightharpoonup> Flag"

definition Lookup :: "Command \<Rightarrow> string \<Rightarrow> Flag option" where
  "Lookup cmd name = cmd name"

definition FlagsChanged :: "Command \<Rightarrow> string \<Rightarrow> bool" where
  "FlagsChanged cmd name = (case Lookup cmd name of None \<Rightarrow> False | Some f \<Rightarrow> Changed f)"

text \<open>
  \<open>GetString\<close> and \<open>GetBool\<close> return the zero value together with an error when the
  flag is not registered or has the other type. Every call in the source drops the error
  (\<open>value, _ := ...\<close>), so the model returns the value alone.
\<close>

definition GetString :: "Command \<Rightarrow> string \<Rightarrow> string" where
  "GetString cmd name =
     (case Lookup cmd name of
        None \<Rightarrow> ''''
      | Some f \<Rightarrow> (case Value f of StringValue s \<Rightarrow> s | BoolValue b \<Rightarrow> ''''))"

definition GetBool :: "Command \<Rightarrow> string \<Rightarrow> bool" where
  "GetBool cmd name =
     (case Lookup cmd name of
        None \<Rightarrow> False
      | Some f \<Rightarrow> (case Value f of BoolValue b \<Rightarrow> b | StringValue s \<Rightarrow> False))"

section \<open>Filter flags\<close>

definition recipientToUsage :: string where
  "recipientToUsage = ''filter by recipient address/name''"

definition filterFlagNames :: "string list" where
  "filterFlagNames =
     [''mailbox'', ''from'', ''to'', ''subject'',
      ''before'', ''after'', ''has-attachment'',
      ''unread'', ''flagged'', ''unflagged'']"

definition isRecipientToFilterFlag :: "Command \<Rightarrow> bool" where
  "isRecipientToFilterFlag cmd =
     (case Lookup cmd ''to'' of None \<Rightarrow> False | Some f \<Rightarrow> Usage f = recipientToUsage)"

text \<open>
  The loop of \<open>hasFilterFlags\<close> over \<open>filterFlagNames\<close>: \<open>continue\<close> is the recursive
  call on the remaining names, \<open>return true\<close> ends the loop, and falling out of the
  \<open>switch\<close> goes on with the next name.
\<close>

fun hasFilterFlagsLoop :: "Command \<Rightarrow> string list \<Rightarrow> bool" where
  "hasFilterFlagsLoop cmd [] = False"
| "hasFilterFlagsLoop cmd (name # names) =
     (if Lookup cmd name = None \<or> \<not> FlagsChanged cmd name then hasFilterFlagsLoop cmd names
      else if name \<in> set [''mailbox'', ''from'', ''to'', ''subject'', ''before'', ''after''] then
        (if name = ''to'' \<and> \<not> isRecipientToFilterFlag cmd then hasFilterFlagsLoop cmd names
         else if TrimSpace (GetString cmd name) \<noteq> '''' then True
         else hasFilterFlagsLoop cmd names)
      else if name \<in> set [''has-attachment'', ''unread'', ''flagged'', ''unflagged''] then
        (if GetBool cmd name then True else hasFilterFlagsLoop cmd names)
      else hasFilterFlagsLoop cmd names)"

definition hasFilterFlags :: "Command \<Rightarrow> bool" where
  "hasFilterFlags cmd = hasFilterFlagsLoop cmd filterFlagNames"

section \<open>Errors, search options and the client\<close>

text \<open>
  \<open>exitError\<close> (cmd/root.go) prints the structured error (code, message, hint) to
  standard error and returns \<open>ErrSilent\<close>. The model keeps what was printed as the
  error value, so that the kinds of error can be told apart.
\<close>

record ExitError =
  code :: string
  message :: string
  hint :: string

definition exitError :: "string \<Rightarrow> string \<Rightarrow> string \<Rightarrow> ExitError" where
  "exitError c m h = \<lparr>code = c, message = m, hint = h\<rparr>"

text \<open>The errors the functions below return, named after the kinds of the specification.\<close>

definition AmbiguousTargets :: ExitError where
  "AmbiguousTargets =
     exitError ''general_error'' ''cannot combine email IDs with filter flags''
       ''Use either email IDs or filter flags, not both''"

definition NoTargets :: ExitError where
  "NoTargets =
     exitError ''general_error'' ''no emails specified''
       ''Provide email IDs as arguments or use filter flags (e.g. --mailbox inbox --unread)''"

definition ConflictingFilters :: ExitError where
  "ConflictingFilters =
     exitError ''general_error'' ''--flagged and --unflagged are mutually exclusive'' []"

definition dateHint :: string where
  "dateHint =
     ''Use RFC 3339 format (e.g. 2026-01-15T00:00:00Z) or a bare date (e.g. 2026-01-15)''"

definition InvalidBeforeDate :: "string \<Rightarrow> ExitError" where
  "InvalidBeforeDate err = exitError ''general_error'' (''invalid --before date: '' @ err) dateHint"

definition InvalidAfterDate :: "string \<Rightarrow> ExitError" where
  "InvalidAfterDate err = exitError ''general_error'' (''invalid --after date: '' @ err) dateHint"

definition MailboxNotFound :: "string \<Rightarrow> ExitError" where
  "MailboxNotFound err = exitError ''not_found'' err []"

definition QueryFailed :: "string \<Rightarrow> ExitError" where
  "QueryFailed err = exitError ''jmap_error'' err []"

definition NoMatches :: ExitError where
  "NoMatches = exitError ''not_found'' ''no emails matched the given filters'' []"

text \<open>
  \<open>client.SearchOptions\<close>, with the fields \<open>parseFilterOptions\<close> writes. \<open>'t\<close> is
  \<open>time.Time\<close>; \<open>Before\<close> and \<open>After\<close> are pointers, \<open>None\<close> for \<open>nil\<close>.
  \<open>emptySearchOptions\<close> is the zero value \<open>client.SearchOptions{}\<close>.
\<close>

record 't SearchOptions =
  MailboxID :: string
  From :: string
  To :: string
  Subject :: string
  Before :: "'t option"
  After :: "'t option"
  HasAttachment :: bool
  UnreadOnly :: bool
  FlaggedOnly :: bool
  UnflaggedOnly :: bool

definition emptySearchOptions :: "'t SearchOptions" where
  "emptySearchOptions =
     \<lparr>MailboxID = [], From = [], To = [], Subject = [], Before = None, After = None,
      HasAttachment = False, UnreadOnly = False, FlaggedOnly = False, UnflaggedOnly = False\<rparr>"

text \<open>
  The client is the remote mail service as the two methods used here see it: each method
  is one network call and answers with an error text (\<open>Inl\<close>, the \<open>err.Error()\<close>) or a
  result. The functions below return, next to their result, the network calls they
  issued, in order.
\<close>

record 't Client =
  ResolveMailboxID :: "string \<Rightarrow> string + string"
  QueryEmailIDs :: "'t SearchOptions \<Rightarrow> string + string list"

datatype 't Call = CallResolveMailboxID string | CallQueryEmailIDs "'t SearchOptions"

section \<open>Dates\<close>

text \<open>
  \<open>parseDate\<close> and the functions that call it take \<open>time.Parse\<close> as the parameter
  \<open>timeParse\<close>, from a layout and a value to an error text (the \<open>err.Error()\<close>) or a
  time; \<open>Parse\<close> of the next section is the standard library's.
\<close>

definition RFC3339 :: string where
  "RFC3339 = ''2006-01-02T15:04:05Z07:00''"

definition parseDate :: "(string \<Rightarrow> string \<Rightarrow> string + 't) \<Rightarrow> string \<Rightarrow> string + 't" where
  "parseDate timeParse s =
     (case timeParse RFC3339 s of
        Inr t \<Rightarrow> Inr t
      | Inl err \<Rightarrow>
          (case timeParse ''2006-01-02'' s of
             Inr t \<Rightarrow> Inr t
           | Inl err2 \<Rightarrow> Inl err))"

section \<open>The standard library's \<open>time.Parse\<close>\<close>

text \<open>
  \<open>time.Parse\<close> is not code of this repository: what follows is the parser of Go's
  \<open>time\<close> package (\<open>parse\<close>, \<open>getnum\<close>, \<open>atoi\<close>, \<open>skip\<close>, \<open>parseNanoseconds\<close>,
  \<open>daysIn\<close>, \<open>ParseError.Error\<close> and \<open>quote\<close> of time/format.go) for the two layouts that
  \<open>parseDate\<close> passes to it. Go's \<open>int\<close> is \<open>int\<close>; none of the numbers read here
  leaves its range.

  A time is given by what its clock shows and the offset of its zone from UTC in seconds
  east: \<open>time.Parse\<close> returns the instant that lies that offset before the clock reading,
  in a zone with that offset.
\<close>

record Time =
  Year :: int
  Month :: int
  Day :: int
  Hour :: int
  Minute :: int
  Second :: int
  Nanosecond :: int
  ZoneOffset :: int

text \<open>\<open>time.ParseError\<close> and its text; \<open>quote\<close> escapes byte by byte.\<close>

record ParseError =
  Layout :: string
  ValueStr :: string
  LayoutElem :: string
  ValueElem :: string
  Message :: string

definition lowerhex :: "nat \<Rightarrow> char" where
  "lowerhex n = ''0123456789abcdef'' ! (n mod 16)"

definition quoteByte :: "char \<Rightarrow> string" where
  "quoteByte c =
     (if (128::nat) \<le> of_char c \<or> of_char c < (32::nat)
      then [CHR 0x5C, CHR ''x'', lowerhex (of_char c div 16), lowerhex (of_char c)]
      else if c = CHR 0x22 \<or> c = CHR 0x5C then [CHR 0x5C, c]
      else [c])"

definition quote :: "string \<Rightarrow> string" where
  "quote s = CHR 0x22 # concat (map quoteByte s) @ [CHR 0x22]"

definition Error :: "ParseError \<Rightarrow> string" where
  "Error e =
     (if Message e = []
      then ''parsing time '' @ quote (ValueStr e) @ '' as '' @ quote (Layout e)
             @ '': cannot parse '' @ quote (ValueElem e) @ '' as '' @ quote (LayoutElem e)
      else ''parsing time '' @ quote (ValueStr e) @ Message e)"

definition newParseError :: "string \<Rightarrow> string \<Rightarrow> string \<Rightarrow> string \<Rightarrow> string \<Rightarrow> ParseError" where
  "newParseError layout v layoutElem valueElem msg =
     \<lparr>Layout = layout, ValueStr = v, LayoutElem = layoutElem, ValueElem = valueElem, Message = msg\<rparr>"

text \<open>
  Reading digits. \<open>isDigit s i\<close> is false beyond the end of \<open>s\<close>; \<open>getnum\<close> reads one or
  two digits, exactly two when \<open>fixed\<close>; \<open>atoi\<close> is used on strings that start with a
  digit only, where it reads no sign. \<open>None\<close> is the error \<open>errBad\<close>.
\<close>

definition isDigitChar :: "char \<Rightarrow> bool" where
  "isDigitChar c = ((48::nat) \<le> of_char c \<and> of_char c \<le> (57::nat))"

definition isDigit :: "string \<Rightarrow> nat \<Rightarrow> bool" where
  "isDigit s i = (if length s \<le> i then False else isDigitChar (s ! i))"

definition digit :: "char \<Rightarrow> int" where
  "digit c = int (of_char c) - 48"

definition getnum :: "string \<Rightarrow> bool \<Rightarrow> (int \<times> string) option" where
  "getnum s fixed =
     (if \<not> isDigit s 0 then None
      else if \<not> isDigit s 1 then (if fixed then None else Some (digit (s ! 0), drop 1 s))
      else Some (digit (s ! 0) * 10 + digit (s ! 1), drop 2 s))"

definition atoi :: "string \<Rightarrow> int option" where
  "atoi s = (if list_all isDigitChar s then Some (foldl (\<lambda>x c. x * 10 + digit c) 0 s) else None)"

definition commaOrPeriod :: "char \<Rightarrow> bool" where
  "commaOrPeriod c = (c = CHR ''.'' \<or> c = CHR '','')"

text \<open>
  \<open>parseNanoseconds value nbytes\<close>: the fraction of a second in the first \<open>nbytes\<close>
  bytes of \<open>value\<close>, a separator and digits, of which the first nine count.
\<close>

definition parseNanoseconds :: "string \<Rightarrow> nat \<Rightarrow> int option" where
  "parseNanoseconds v nbytes =
     (if \<not> commaOrPeriod (v ! 0) then None
      else
        (let nbytes = (if nbytes > 10 then 10 else nbytes) in
         case atoi (take (nbytes - 1) (drop 1 v)) of
           None \<Rightarrow> None
         | Some ns \<Rightarrow> Some (ns * 10 ^ (10 - nbytes))))"

definition isLeap :: "int \<Rightarrow> bool" where
  "isLeap year = (year mod 4 = 0 \<and> (year mod 100 \<noteq> 0 \<or> year mod 400 = 0))"

definition daysIn :: "int \<Rightarrow> int \<Rightarrow> int" where
  "daysIn m year =
     (if m = 2 then (if isLeap year then 29 else 28)
      else if m = 4 \<or> m = 6 \<or> m = 9 \<or> m = 11 then 30
      else 31)"

text \<open>
  \<open>skip value prefix\<close> for a prefix without spaces (the two layouts have none): the rest
  of the value, and whether the prefix was there.
\<close>

fun skip :: "string \<Rightarrow> string \<Rightarrow> string \<times> bool" where
  "skip v [] = (v, True)"
| "skip v (p # rest) =
     (case v of
        [] \<Rightarrow> (v, False)
      | x # xs \<Rightarrow> if x \<noteq> p then (v, False) else skip xs rest)"

text \<open>
  The elements of the two layouts, and the time under construction. \<open>zoneOffset\<close> is
  \<open>None\<close> until a zone is read; \<open>Z\<close> is the offset 0.
\<close>

datatype Std = stdLongYear | stdZeroMonth | stdZeroDay | stdHour | stdZeroMinute | stdZeroSecond
  | stdISO8601ColonTZ

record Fields =
  year :: int
  month :: int
  day :: int
  hour :: int
  minute :: int
  sec :: int
  nsec :: int
  zoneOffset :: "int option"

text \<open>
  One element read: \<open>errBad\<close>, a value out of range (its name and the value left), or
  the value left and the time so far. A range error wins over \<open>errBad\<close>, as in the test
  after the \<open>switch\<close>.
\<close>

datatype StdResult = ErrBad | OutOfRange string string | Parsed string Fields

definition parseZone :: "string \<Rightarrow> Fields \<Rightarrow> StdResult" where
  "parseZone v st =
     (if length v \<ge> 1 \<and> v ! 0 = CHR ''Z'' then Parsed (drop 1 v) (st\<lparr>zoneOffset := Some 0\<rparr>)
      else if length v < 6 then ErrBad
      else if v ! 3 \<noteq> CHR '':'' then ErrBad
      else
        (let sign = v ! 0;
             hr = getnum (take 2 (drop 1 v)) True;
             mm = (if hr = None then None else getnum (take 2 (drop 4 v)) True);
             rest = drop 6 v;
             h = (case hr of None \<Rightarrow> 0 | Some (n, r) \<Rightarrow> n);
             m = (case mm of None \<Rightarrow> 0 | Some (n, r) \<Rightarrow> n)
         in if m > 60 then OutOfRange ''time zone offset minute'' rest
            else if h > 24 then OutOfRange ''time zone offset hour'' rest
            else if hr = None \<or> mm = None then ErrBad
            else if sign = CHR ''+'' then Parsed rest (st\<lparr>zoneOffset := Some ((h * 60 + m) * 60)\<rparr>)
            else if sign = CHR ''-'' then Parsed rest (st\<lparr>zoneOffset := Some (- ((h * 60 + m) * 60))\<rparr>)
            else ErrBad))"

definition parseSecond :: "string \<Rightarrow> Fields \<Rightarrow> StdResult" where
  "parseSecond v st =
     (case getnum v True of
        None \<Rightarrow> ErrBad
      | Some (s, v) \<Rightarrow>
          if 60 \<le> s then OutOfRange ''second'' v
          else if length v \<ge> 2 \<and> commaOrPeriod (v ! 0) \<and> isDigit v 1 then
            (let n = 2 + length (takeWhile isDigitChar (drop 2 v)) in
             case parseNanoseconds v n of
               None \<Rightarrow> ErrBad
             | Some ns \<Rightarrow> Parsed (drop n v) (st\<lparr>sec := s, nsec := ns\<rparr>))
          else Parsed v (st\<lparr>sec := s\<rparr>))"

fun parseStd :: "Std \<Rightarrow> string \<Rightarrow> Fields \<Rightarrow> StdResult" where
  "parseStd stdLongYear v st =
     (if length v < 4 \<or> \<not> isDigit v 0 then ErrBad
      else (case atoi (take 4 v) of
              None \<Rightarrow> ErrBad
            | Some y \<Rightarrow> Parsed (drop 4 v) (st\<lparr>year := y\<rparr>)))"
| "parseStd stdZeroMonth v st =
     (case getnum v True of
        None \<Rightarrow> ErrBad
      | Some (m, v) \<Rightarrow> if m \<le> 0 \<or> 12 < m then OutOfRange ''month'' v else Parsed v (st\<lparr>month := m\<rparr>))"
| "parseStd stdZeroDay v st =
     (case getnum v True of
        None \<Rightarrow> ErrBad
      | Some (d, v) \<Rightarrow> Parsed v (st\<lparr>day := d\<rparr>))"
| "parseStd stdHour v st =
     (case getnum v False of
        None \<Rightarrow> ErrBad
      | Some (h, v) \<Rightarrow> if 24 \<le> h then OutOfRange ''hour'' v else Parsed v (st\<lparr>hour := h\<rparr>))"
| "parseStd stdZeroMinute v st =
     (case getnum v True of
        None \<Rightarrow> ErrBad
      | Some (m, v) \<Rightarrow> if 60 \<le> m then OutOfRange ''minute'' v else Parsed v (st\<lparr>minute := m\<rparr>))"
| "parseStd stdZeroSecond v st = parseSecond v st"
| "parseStd stdISO8601ColonTZ v st = parseZone v st"

declare parseStd.simps [simp del]

text \<open>
  The loop of \<open>parse\<close> over the elements of a layout, each with the text before it and
  its own text: skip the text before, read the element, go on with the value left.
\<close>

fun parseChunks ::
  "string \<Rightarrow> string \<Rightarrow> (string \<times> Std \<times> string) list \<Rightarrow> string \<Rightarrow> Fields \<Rightarrow> ParseError + string \<times> Fields" where
  "parseChunks alayout avalue [] v st = Inr (v, st)"
| "parseChunks alayout avalue ((before, std, stdstr) # layout) v st =
     (case skip v before of
        (v, False) \<Rightarrow> Inl (newParseError alayout avalue before v [])
      | (v, True) \<Rightarrow>
          (case parseStd std v st of
             OutOfRange r rest \<Rightarrow>
               Inl (newParseError alayout avalue stdstr rest ('': '' @ r @ '' out of range''))
           | ErrBad \<Rightarrow> Inl (newParseError alayout avalue stdstr v [])
           | Parsed rest st \<Rightarrow> parseChunks alayout avalue layout rest st))"

text \<open>
  What \<open>nextStdChunk\<close> finds in the two layouts. No other layout is passed to
  \<open>time.Parse\<close> here, and none is modelled.
\<close>

definition stdChunks :: "string \<Rightarrow> (string \<times> Std \<times> string) list" where
  "stdChunks layout =
     (if layout = RFC3339
      then [([], stdLongYear, ''2006''), (''-'', stdZeroMonth, ''01''), (''-'', stdZeroDay, ''02''),
            (''T'', stdHour, ''15''), ('':'', stdZeroMinute, ''04''), ('':'', stdZeroSecond, ''05''),
            ([], stdISO8601ColonTZ, ''Z07:00'')]
      else if layout = ''2006-01-02''
      then [([], stdLongYear, ''2006''), (''-'', stdZeroMonth, ''01''), (''-'', stdZeroDay, ''02'')]
      else [])"

text \<open>
  \<open>parse\<close>: after the last element nothing may be left of the value, and the day must
  exist in its month. Without a zone in the value the time is in UTC.
\<close>

definition parse :: "string \<Rightarrow> string \<Rightarrow> ParseError + Time" where
  "parse layout v =
     (case parseChunks layout v (stdChunks layout) v
             \<lparr>year = 0, month = 0, day = 0, hour = 0, minute = 0, sec = 0, nsec = 0, zoneOffset = None\<rparr> of
        Inl e \<Rightarrow> Inl e
      | Inr (rest, st) \<Rightarrow>
          if rest \<noteq> [] then Inl (newParseError layout v [] rest ('': extra text: '' @ quote rest))
          else if day st < 1 \<or> day st > daysIn (month st) (year st)
            then Inl (newParseError layout v [] rest '': day out of range'')
          else Inr \<lparr>Year = year st, Month = month st, Day = day st, Hour = hour st, Minute = minute st,
                    Second = sec st, Nanosecond = nsec st,
                    ZoneOffset = (case zoneOffset st of None \<Rightarrow> 0 | Some off \<Rightarrow> off)\<rparr>)"

text \<open>
  \<open>time.Parse\<close>, with the error as its text. For the RFC 3339 layout \<open>time.Parse\<close> first
  tries a faster parser (\<open>parseRFC3339\<close>) and falls back to \<open>parse\<close> when that one
  refuses; the faster parser accepts fewer strings than \<open>parse\<close> and gives them the same
  time, so the result is that of \<open>parse\<close>.
\<close>

definition Parse :: "string \<Rightarrow> string \<Rightarrow> string + Time" where
  "Parse layout v = (case parse layout v of Inl e \<Rightarrow> Inl (Error e) | Inr t \<Rightarrow> Inr t)"

section \<open>Parsing the filter flags\<close>

text \<open>The part of \<open>parseFilterOptions\<close> before its first return: the fields read from flags.\<close>

definition readFilterFlags :: "Command \<Rightarrow> 't SearchOptions" where
  "readFilterFlags cmd =
     (let opts = emptySearchOptions;
          opts = (if TrimSpace (GetString cmd ''from'') \<noteq> []
                  then opts\<lparr>From := GetString cmd ''from''\<rparr> else opts);
          opts = (if isRecipientToFilterFlag cmd
                  then (if TrimSpace (GetString cmd ''to'') \<noteq> []
                        then opts\<lparr>To := GetString cmd ''to''\<rparr> else opts)
                  else opts);
          opts = (if TrimSpace (GetString cmd ''subject'') \<noteq> []
                  then opts\<lparr>Subject := GetString cmd ''subject''\<rparr> else opts)
      in opts\<lparr>HasAttachment := GetBool cmd ''has-attachment'',
               UnreadOnly := GetBool cmd ''unread'',
               FlaggedOnly := GetBool cmd ''flagged'',
               UnflaggedOnly := GetBool cmd ''unflagged''\<rparr>)"

text \<open>The \<open>--before\<close> and \<open>--after\<close> blocks: trim, parse, and fail with \<open>general_error\<close>.\<close>

definition parseBeforeFlag ::
  "(string \<Rightarrow> string \<Rightarrow> string + 't) \<Rightarrow> Command \<Rightarrow> 't SearchOptions \<Rightarrow> ExitError + 't SearchOptions" where
  "parseBeforeFlag timeParse cmd opts =
     (if TrimSpace (GetString cmd ''before'') \<noteq> [] then
        (case parseDate timeParse (TrimSpace (GetString cmd ''before'')) of
           Inl err \<Rightarrow> Inl (InvalidBeforeDate err)
         | Inr t \<Rightarrow> Inr (opts\<lparr>Before := Some t\<rparr>))
      else Inr opts)"

definition parseAfterFlag ::
  "(string \<Rightarrow> string \<Rightarrow> string + 't) \<Rightarrow> Command \<Rightarrow> 't SearchOptions \<Rightarrow> ExitError + 't SearchOptions" where
  "parseAfterFlag timeParse cmd opts =
     (if TrimSpace (GetString cmd ''after'') \<noteq> [] then
        (case parseDate timeParse (TrimSpace (GetString cmd ''after'')) of
           Inl err \<Rightarrow> Inl (InvalidAfterDate err)
         | Inr t \<Rightarrow> Inr (opts\<lparr>After := Some t\<rparr>))
      else Inr opts)"

text \<open>The \<open>--mailbox\<close> block: the one network call of \<open>parseFilterOptions\<close>.\<close>

definition resolveMailboxFlag ::
  "Command \<Rightarrow> 't Client \<Rightarrow> 't SearchOptions \<Rightarrow> (ExitError + 't SearchOptions) \<times> 't Call list" where
  "resolveMailboxFlag cmd c opts =
     (if TrimSpace (GetString cmd ''mailbox'') \<noteq> [] then
        (let mailboxName = TrimSpace (GetString cmd ''mailbox'') in
         case ResolveMailboxID c mailboxName of
           Inl err \<Rightarrow> (Inl (MailboxNotFound err), [CallResolveMailboxID mailboxName])
         | Inr mailboxID \<Rightarrow>
             (Inr (opts\<lparr>MailboxID := mailboxID\<rparr>), [CallResolveMailboxID mailboxName]))
      else (Inr opts, []))"

definition parseFilterOptions ::
  "(string \<Rightarrow> string \<Rightarrow> string + 't) \<Rightarrow> Command \<Rightarrow> 't Client
     \<Rightarrow> (ExitError + 't SearchOptions) \<times> 't Call list" where
  "parseFilterOptions timeParse cmd c =
     (let opts = readFilterFlags cmd in
      if FlaggedOnly opts \<and> UnflaggedOnly opts then (Inl ConflictingFilters, [])
      else
        (case parseBeforeFlag timeParse cmd opts of
           Inl e \<Rightarrow> (Inl e, [])
         | Inr opts \<Rightarrow>
             (case parseAfterFlag timeParse cmd opts of
                Inl e \<Rightarrow> (Inl e, [])
              | Inr opts \<Rightarrow> resolveMailboxFlag cmd c opts)))"

section \<open>Targets: identifiers or filters\<close>

definition validateIDsOrFilters :: "Command \<Rightarrow> string list \<Rightarrow> ExitError + unit" where
  "validateIDsOrFilters cmd args =
     (let hasIDs = (length args > 0);
          hasFilters = hasFilterFlags cmd
      in if hasIDs \<and> hasFilters then Inl AmbiguousTargets
         else if \<not> hasIDs \<and> \<not> hasFilters then Inl NoTargets
         else if GetBool cmd ''flagged'' \<and> GetBool cmd ''unflagged'' then Inl ConflictingFilters
         else Inr ())"

definition resolveEmailIDs ::
  "(string \<Rightarrow> string \<Rightarrow> string + 't) \<Rightarrow> Command \<Rightarrow> string list \<Rightarrow> 't Client
     \<Rightarrow> (ExitError + string list) \<times> 't Call list" where
  "resolveEmailIDs timeParse cmd args c =
     (if length args > 0 then (Inr args, [])
      else
        (case parseFilterOptions timeParse cmd c of
           (Inl err, calls) \<Rightarrow> (Inl err, calls)
         | (Inr opts, calls) \<Rightarrow>
             (case QueryEmailIDs c opts of
                Inl err \<Rightarrow> (Inl (QueryFailed err), calls @ [CallQueryEmailIDs opts])
              | Inr ids \<Rightarrow>
                  (if length ids = 0 then (Inl NoMatches, calls @ [CallQueryEmailIDs opts])
                   else (Inr ids, calls @ [CallQueryEmailIDs opts])))))"

section \<open>Registering and setting flags\<close>

text \<open>
  \<open>Flags().String\<close> and \<open>Flags().Bool\<close> register a flag with its default value and its
  usage; \<open>pflag\<close> panics when the name is registered already, here \<open>None\<close>. Shorthand
  letters (\<open>StringP\<close>, \<open>BoolP\<close>) play no part in the functions above and are left out.
\<close>

definition StringFlag :: "Command \<Rightarrow> string \<Rightarrow> string \<Rightarrow> string \<Rightarrow> Command option" where
  "StringFlag cmd name v usage =
     (if cmd name \<noteq> None then None
      else Some (cmd(name \<mapsto> \<lparr>Usage = usage, Value = StringValue v, Changed = False\<rparr>)))"

definition BoolFlag :: "Command \<Rightarrow> string \<Rightarrow> bool \<Rightarrow> string \<Rightarrow> Command option" where
  "BoolFlag cmd name v usage =
     (if cmd name \<noteq> None then None
      else Some (cmd(name \<mapsto> \<lparr>Usage = usage, Value = BoolValue v, Changed = False\<rparr>)))"

definition addFilterFlags :: "Command \<Rightarrow> Command option" where
  "addFilterFlags cmd =
     Option.bind (StringFlag cmd ''mailbox'' [] ''restrict to a specific mailbox'') (\<lambda>cmd.
     Option.bind (StringFlag cmd ''from'' [] ''filter by sender address/name'') (\<lambda>cmd.
     Option.bind (if Lookup cmd ''to'' = None then StringFlag cmd ''to'' [] recipientToUsage
                  else Some cmd) (\<lambda>cmd.
     Option.bind (StringFlag cmd ''subject'' [] ''filter by subject text'') (\<lambda>cmd.
     Option.bind (StringFlag cmd ''before'' []
        ''emails received before this date (RFC 3339 or YYYY-MM-DD)'') (\<lambda>cmd.
     Option.bind (StringFlag cmd ''after'' []
        ''emails received after this date (RFC 3339 or YYYY-MM-DD)'') (\<lambda>cmd.
     Option.bind (BoolFlag cmd ''has-attachment'' False ''only emails with attachments'') (\<lambda>cmd.
     Option.bind (BoolFlag cmd ''unread'' False ''only unread messages'') (\<lambda>cmd.
     Option.bind (BoolFlag cmd ''flagged'' False ''only flagged messages'') (\<lambda>cmd.
     BoolFlag cmd ''unflagged'' False ''only unflagged messages'')))))))))"

text \<open>
  \<open>Flags().Set(name, value)\<close>, as the tests call it and as parsing a command line does:
  a string flag takes the value as it is, a bool flag takes what \<open>strconv.ParseBool\<close>
  reads, and the flag is marked as changed. \<open>None\<close> is the returned error (no such flag,
  or no boolean).
\<close>

definition ParseBool :: "string \<Rightarrow> bool option" where
  "ParseBool str =
     (if str \<in> set [''1'', ''t'', ''T'', ''TRUE'', ''true'', ''True''] then Some True
      else if str \<in> set [''0'', ''f'', ''F'', ''FALSE'', ''false'', ''False''] then Some False
      else None)"

definition SetFlag :: "Command \<Rightarrow> string \<Rightarrow> string \<Rightarrow> Command option" where
  "SetFlag cmd name v =
     (case Lookup cmd name of
        None \<Rightarrow> None
      | Some f \<Rightarrow>
          (case Value f of
             StringValue old \<Rightarrow> Some (cmd(name \<mapsto> f\<lparr>Value := StringValue v, Changed := True\<rparr>))
           | BoolValue old \<Rightarrow>
               (case ParseBool v of
                  None \<Rightarrow> None
                | Some b \<Rightarrow> Some (cmd(name \<mapsto> f\<lparr>Value := BoolValue b, Changed := True\<rparr>)))))"

text \<open>\<open>newFilterTestCommand\<close> of cmd/filters_test.go.\<close>

definition newFilterTestCommand :: "bool \<Rightarrow> Command option" where
  "newFilterTestCommand withDestinationTo =
     Option.bind (if withDestinationTo
                  then StringFlag Map.empty ''to'' [] ''target mailbox name or ID (required)''
                  else Some Map.empty)
       addFilterFlags"

section \<open>Active filters, in the words of the specification\<close>

text \<open>
  A string filter flag is active when the command line set it to a value that is not
  white space only; a boolean filter flag is active when the command line set it to true.
  \<open>--to\<close> is a filter flag only where it is the recipient filter.
\<close>

definition stringFilterActive :: "Command \<Rightarrow> string \<Rightarrow> bool" where
  "stringFilterActive cmd name =
     (case cmd name of
        None \<Rightarrow> False
      | Some f \<Rightarrow>
          Changed f \<and> (case Value f of StringValue v \<Rightarrow> \<not> whitespaceOnly v | BoolValue b \<Rightarrow> False))"

definition boolFilterActive :: "Command \<Rightarrow> string \<Rightarrow> bool" where
  "boolFilterActive cmd name =
     (case cmd name of None \<Rightarrow> False | Some f \<Rightarrow> Changed f \<and> Value f = BoolValue True)"

definition stringFilterFlags :: "Command \<Rightarrow> string list" where
  "stringFilterFlags cmd =
     (if isRecipientToFilterFlag cmd
      then [''mailbox'', ''from'', ''to'', ''subject'', ''before'', ''after'']
      else [''mailbox'', ''from'', ''subject'', ''before'', ''after''])"

definition boolFilterFlags :: "string list" where
  "boolFilterFlags = [''has-attachment'', ''unread'', ''flagged'', ''unflagged'']"

text \<open>
  \<open>pflag\<close> marks a flag as changed whenever it sets its value, and \<open>addFilterFlags\<close>
  registers the filter flags with the empty string and false as defaults: a filter flag
  that was not set holds its default.
\<close>

definition unchangedAtDefault :: "Command \<Rightarrow> bool" where
  "unchangedAtDefault cmd =
     list_all (\<lambda>name. case cmd name of
                  None \<Rightarrow> True
                | Some f \<Rightarrow> Changed f \<or> Value f = StringValue [] \<or> Value f = BoolValue False)
       (stringFilterFlags cmd @ boolFilterFlags)"

section \<open>Date strings, in the words of the specification\<close>

text \<open>
  Numbers written with two and with four decimal digits, and a calendar date written as
  \<open>YYYY-MM-DD\<close>.
\<close>

definition digitChar :: "int \<Rightarrow> char" where
  "digitChar n = char_of (48 + nat (n mod 10))"

definition twoDigits :: "int \<Rightarrow> string" where
  "twoDigits n = [digitChar (n div 10), digitChar n]"

definition fourDigits :: "int \<Rightarrow> string" where
  "fourDigits n = [digitChar (n div 1000), digitChar (n div 100), digitChar (n div 10), digitChar n]"

definition dateText :: "int \<Rightarrow> int \<Rightarrow> int \<Rightarrow> string" where
  "dateText y mo d = fourDigits y @ ''-'' @ twoDigits mo @ ''-'' @ twoDigits d"

definition validDate :: "int \<Rightarrow> int \<Rightarrow> int \<Rightarrow> bool" where
  "validDate y mo d = (0 \<le> y \<and> y \<le> 9999 \<and> 1 \<le> mo \<and> mo \<le> 12 \<and> 1 \<le> d \<and> d \<le> daysIn mo y)"

text \<open>
  The zone of an RFC 3339 timestamp: \<open>Z\<close>, or a sign with hours and minutes; its offset
  from UTC in seconds east.
\<close>

datatype Zone = ZoneUTC | ZoneEast int int | ZoneWest int int

fun zoneText :: "Zone \<Rightarrow> string" where
  "zoneText ZoneUTC = ''Z''"
| "zoneText (ZoneEast h m) = ''+'' @ twoDigits h @ '':'' @ twoDigits m"
| "zoneText (ZoneWest h m) = ''-'' @ twoDigits h @ '':'' @ twoDigits m"


fun validZone :: "Zone \<Rightarrow> bool" where
  "validZone ZoneUTC = True"
| "validZone (ZoneEast h m) = (0 \<le> h \<and> h \<le> 23 \<and> 0 \<le> m \<and> m \<le> 59)"
| "validZone (ZoneWest h m) = (0 \<le> h \<and> h \<le> 23 \<and> 0 \<le> m \<and> m \<le> 59)"

text \<open>
  The fraction of a second: no digits and no point, or a point and digits. Its value in
  nanoseconds is that of its first nine digits, with zeros for the missing ones.
\<close>

definition fracText :: "string \<Rightarrow> string" where
  "fracText ds = (if ds = [] then [] else ''.'' @ ds)"

definition decimal :: "string \<Rightarrow> int" where
  "decimal ds = foldl (\<lambda>x c. x * 10 + digit c) 0 ds"



definition validClockRFC :: "int \<Rightarrow> int \<Rightarrow> int \<Rightarrow> bool" where
  "validClockRFC h mi s = (0 \<le> h \<and> h \<le> 23 \<and> 0 \<le> mi \<and> mi \<le> 59 \<and> 0 \<le> s \<and> s \<le> 60)"

text \<open>
  The full RFC 3339 timestamp (\<open>date-time\<close> of RFC 3339, section 5.6, with upper-case
  \<open>T\<close> and \<open>Z\<close>) of a date, a time of day, the digits of the fraction and a zone.
\<close>

definition rfc3339Text :: "int \<Rightarrow> int \<Rightarrow> int \<Rightarrow> int \<Rightarrow> int \<Rightarrow> int \<Rightarrow> string \<Rightarrow> Zone \<Rightarrow> string" where
  "rfc3339Text y mo d h mi s ds z =
     dateText y mo d @ ''T'' @ twoDigits h @ '':'' @ twoDigits mi @ '':'' @ twoDigits s
       @ fracText ds @ zoneText z"

text \<open>
  Whether a string is a bare calendar date, and whether it is a full RFC 3339 timestamp:
  the numbers are read at their places, and the string must be the text of what was read.
\<close>

definition bareDateForm :: "string \<Rightarrow> bool" where
  "bareDateForm v =
     (let y = decimal (take 4 v); mo = decimal (take 2 (drop 5 v)); d = decimal (take 2 (drop 8 v))
      in validDate y mo d \<and> v = dateText y mo d)"

definition readZone :: "string \<Rightarrow> Zone" where
  "readZone zt =
     (if zt = ''Z'' then ZoneUTC
      else if take 1 zt = ''+''
      then ZoneEast (decimal (take 2 (drop 1 zt))) (decimal (take 2 (drop 4 zt)))
      else ZoneWest (decimal (take 2 (drop 1 zt))) (decimal (take 2 (drop 4 zt))))"

definition readFraction :: "string \<Rightarrow> string" where
  "readFraction rest = (if take 1 rest = ''.'' then takeWhile isDigitChar (drop 1 rest) else [])"

definition rfc3339Form :: "string \<Rightarrow> bool" where
  "rfc3339Form v =
     (let y = decimal (take 4 v); mo = decimal (take 2 (drop 5 v)); d = decimal (take 2 (drop 8 v));
          h = decimal (take 2 (drop 11 v)); mi = decimal (take 2 (drop 14 v));
          s = decimal (take 2 (drop 17 v));
          ds = readFraction (drop 19 v);
          z = readZone (drop (19 + length (fracText ds)) v)
      in validDate y mo d \<and> validClockRFC h mi s \<and> validZone z
         \<and> v = rfc3339Text y mo d h mi s ds z)"

section \<open>The order of validation, client creation and resolution\<close>



section \<open>The safety gates\<close>

text \<open>The kinds of rejection of the two gates (section 7 of the specification).\<close>

datatype SafetyError = ForbiddenDestination | UnsafeDraftRequest

record Mailbox =
  ID :: string
  Name :: string
  Role :: "string option"

text \<open>Comparing names without regard to the case of the ASCII letters.\<close>

definition asciiLower :: "char \<Rightarrow> char" where
  "asciiLower ch =
     (if (65::nat) \<le> of_char ch \<and> of_char ch \<le> (90::nat)
      then char_of (of_char ch + (32::nat)) else ch)"

definition equalFold :: "string \<Rightarrow> string \<Rightarrow> bool" where
  "equalFold a b = list_all2 (\<lambda>x y. asciiLower x = asciiLower y) a b"

definition forbiddenNames :: "string list" where
  "forbiddenNames = [''Trash'', ''Deleted Items'', ''Deleted Messages'']"

text \<open>
  Modelled from the spec: the move safety check (\<open>ValidateTargetMailbox\<close> of
  internal/client/safety.go and the body of cmd/move.go are missing). The destination
  must not have the role \<open>trash\<close>, and its name must not equal, without regard to case,
  "Trash", "Deleted Items" or "Deleted Messages".
\<close>

definition ValidateTargetMailbox :: "Mailbox \<Rightarrow> SafetyError + unit" where
  "ValidateTargetMailbox mb =
     (if Role mb = Some ''trash'' then Inl ForbiddenDestination
      else if list_ex (equalFold (Name mb)) forbiddenNames then Inl ForbiddenDestination
      else Inr ())"

text \<open>
  Modelled from the spec: the move command (cmd/move.go is missing). It resolves the
  destination with a read-only \<open>Mailbox/get\<close>, checks it, and only then issues the
  \<open>Email/set\<close> update; with \<open>--dry-run\<close> it fetches the summaries with a read-only
  \<open>Email/get\<close> instead. The result comes with the network calls issued, in order.
\<close>

datatype MoveCall = MailboxGet string | EmailGet "string list" | EmailSetUpdate "string list" string

fun isMutation :: "MoveCall \<Rightarrow> bool" where
  "isMutation (MailboxGet target) = False"
| "isMutation (EmailGet ids) = False"
| "isMutation (EmailSetUpdate ids mailboxID) = True"

datatype MoveError = DestinationNotFound | Rejected SafetyError

definition moveEmails ::
  "(string \<rightharpoonup> Mailbox) \<Rightarrow> bool \<Rightarrow> string \<Rightarrow> string list \<Rightarrow> (MoveError + Mailbox) \<times> MoveCall list" where
  "moveEmails resolveMailbox dryRun target ids =
     (case resolveMailbox target of
        None \<Rightarrow> (Inl DestinationNotFound, [MailboxGet target])
      | Some mb \<Rightarrow>
          (case ValidateTargetMailbox mb of
             Inl e \<Rightarrow> (Inl (Rejected e), [MailboxGet target])
           | Inr u \<Rightarrow>
               (if dryRun then (Inr mb, [MailboxGet target, EmailGet ids])
                else (Inr mb, [MailboxGet target, EmailSetUpdate ids (ID mb)]))))"

text \<open>
  The \<open>Email/set\<close> payload of a draft creation: the objects to create by creation id,
  the patches by email id (\<open>'p\<close> is the patch), and the identifiers to destroy. Go maps
  are finite maps.
\<close>

record DraftEmail =
  MailboxIDs :: "(string, bool) fmap"
  Keywords :: "(string, bool) fmap"

record 'p EmailSet =
  Create :: "(string, DraftEmail) fmap"
  Update :: "(string, 'p) fmap"
  Destroy :: "string list"

text \<open>
  Modelled from the spec: \<open>ValidateSetForDraft\<close> (internal/client/safety.go is missing;
  the plan docs/plans/todo/dapper-sauteeing-taco.md lists its five checks in this order).
  Destroy is empty, Update is empty, Create has exactly one entry, the created email's
  MailboxIDs are exactly \<open>draftsMailboxID: true\<close>, and its Keywords hold
  \<open>$draft: true\<close>.
\<close>

definition ValidateSetForDraft :: "'p EmailSet \<Rightarrow> string \<Rightarrow> SafetyError + unit" where
  "ValidateSetForDraft req draftsMailboxID =
     (if Destroy req \<noteq> [] then Inl UnsafeDraftRequest
      else if fmdom (Update req) \<noteq> {||} then Inl UnsafeDraftRequest
      else if fcard (fmdom (Create req)) \<noteq> 1 then Inl UnsafeDraftRequest
      else if \<not> fmpred (\<lambda>k e. fcard (fmdom (MailboxIDs e)) = 1
                  \<and> fmlookup (MailboxIDs e) draftsMailboxID = Some True) (Create req)
        then Inl UnsafeDraftRequest
      else if \<not> fmpred (\<lambda>k e. fmlookup (Keywords e) ''$draft'' = Some True) (Create req)
        then Inl UnsafeDraftRequest
      else Inr ())"

text \<open>
  Modelled from the spec: steps 7 and 8 of \<open>CreateDraft\<close> (internal/client/draft.go is
  missing): the gate is the last call before the request is sent, and a rejected request
  is not sent. The result comes with the requests sent.
\<close>

definition sendDraftRequest ::
  "'p EmailSet \<Rightarrow> string \<Rightarrow> (SafetyError + unit) \<times> 'p EmailSet list" where
  "sendDraftRequest req draftsMailboxID =
     (case ValidateSetForDraft req draftsMailboxID of
        Inl e \<Rightarrow> (Inl e, [])
      | Inr u \<Rightarrow> (Inr (), [req]))"

section \<open>Sample inputs\<close>


text \<open>A mail service with one mailbox and two unread emails.\<close>

definition sampleClient :: "Time Client" where
  "sampleClient =
     \<lparr>ResolveMailboxID = (\<lambda>name. if name = ''inbox'' then Inr ''mb-inbox-id''
                                  else Inl (''mailbox not found: '' @ name)),
      QueryEmailIDs = (\<lambda>opts. if UnreadOnly opts then Inr [''M1'', ''M2''] else Inr [])\<rparr>"

text \<open>Mailboxes by the name or identifier a move command may give as its destination.\<close>

definition sampleMailboxes :: "string \<rightharpoonup> Mailbox" where
  "sampleMailboxes =
     [''Receipts'' \<mapsto> \<lparr>ID = ''mb-receipts'', Name = ''Receipts'', Role = None\<rparr>,
      ''Trash'' \<mapsto> \<lparr>ID = ''mb-trash'', Name = ''Trash'', Role = Some ''trash''\<rparr>,
      ''old'' \<mapsto> \<lparr>ID = ''mb-old'', Name = ''DELETED Items'', Role = None\<rparr>]"

text \<open>
  The request that \<open>CreateDraft\<close> builds (one object, in Drafts, with \<open>$draft\<close> and
  \<open>$seen\<close>), and one that also files the new email in the inbox.
\<close>

definition sampleDraft :: "unit EmailSet" where
  "sampleDraft =
     \<lparr>Create = fmupd ''draft''
        \<lparr>MailboxIDs = fmupd ''mb-drafts'' True fmempty,
         Keywords = fmupd ''$draft'' True (fmupd ''$seen'' True fmempty)\<rparr> fmempty,
      Update = fmempty, Destroy = []\<rparr>"

definition sampleDraftInInbox :: "unit EmailSet" where
  "sampleDraftInInbox =
     \<lparr>Create = fmupd ''draft''
        \<lparr>MailboxIDs = fmupd ''mb-inbox'' True (fmupd ''mb-drafts'' True fmempty),
         Keywords = fmupd ''$draft'' True (fmupd ''$seen'' True fmempty)\<rparr> fmempty,
      Update = fmempty, Destroy = []\<rparr>"

text \<open>
  Command lines: the test command with flags set from left to right. \<open>the\<close> takes the
  command out of the result; nothing can be proved of a command line that \<open>pflag\<close>
  refuses.
\<close>

fun setFlags :: "Command option \<Rightarrow> (string \<times> string) list \<Rightarrow> Command option" where
  "setFlags cmd [] = cmd"
| "setFlags cmd ((name, v) # rest) = setFlags (Option.bind cmd (\<lambda>c. SetFlag c name v)) rest"

definition commandLine :: "bool \<Rightarrow> (string \<times> string) list \<Rightarrow> Command" where
  "commandLine withDestinationTo flags = the (setFlags (newFilterTestCommand withDestinationTo) flags)"

section \<open>Facts about \<open>TrimSpace\<close>\<close>

text \<open>
  No encoding of a white-space rune is a prefix of another one, so the rune in front of a
  string is determined; trimming leaves the empty string exactly for the strings that are
  white space only.
\<close>

lemma spaceEncodings_nonempty: "p \<in> set spaceEncodings \<Longrightarrow> p \<noteq> []"
  by (auto simp: spaceEncodings_def)

lemma spaceEncodings_prefix_free:
  "\<forall>p\<in>set spaceEncodings. \<forall>q\<in>set spaceEncodings. prefix p q \<longrightarrow> p = q"
  by code_simp

lemma leadingSpace_Some: "leadingSpace s = Some p \<Longrightarrow> p \<in> set spaceEncodings \<and> prefix p s"
  unfolding leadingSpace_def by (auto simp: find_Some_iff)

lemma trailingSpace_Some: "trailingSpace s = Some p \<Longrightarrow> p \<in> set spaceEncodings \<and> suffix p s"
  unfolding trailingSpace_def by (auto simp: find_Some_iff)

lemma leadingSpace_append:
  assumes "w \<in> set spaceEncodings"
  shows "leadingSpace (w @ r) = Some w"
proof -
  have "prefix w (w @ r)" by simp
  with assms have "leadingSpace (w @ r) \<noteq> None"
    unfolding leadingSpace_def by (auto simp: find_None_iff)
  then obtain p where p: "leadingSpace (w @ r) = Some p" by auto
  then have pin: "p \<in> set spaceEncodings" and pre: "prefix p (w @ r)"
    using leadingSpace_Some by blast+
  from pre have "prefix p w \<or> prefix w p"
    by (meson prefix_append prefix_same_cases prefixI)
  with pin assms have "p = w"
    using spaceEncodings_prefix_free by blast
  with p show ?thesis by simp
qed

lemma TrimLeftSpace_concat:
  "set ws \<subseteq> set spaceEncodings \<Longrightarrow> TrimLeftSpace (concat ws) = []"
proof (induction ws)
  case Nil
  have "leadingSpace [] = None"
    unfolding leadingSpace_def by (auto simp: find_None_iff dest: spaceEncodings_nonempty)
  then show ?case by (simp add: TrimLeftSpace.simps)
next
  case (Cons w ws)
  then have "leadingSpace (w @ concat ws) = Some w"
    by (simp add: leadingSpace_append)
  with Cons show ?case
    by (subst TrimLeftSpace.simps) simp
qed

lemma TrimLeftSpace_empty_imp: "TrimLeftSpace s = [] \<Longrightarrow> whitespaceOnly s"
proof (induction s rule: TrimLeftSpace.induct)
  case (1 s)
  show ?case
  proof (cases "leadingSpace s")
    case None
    with "1.prems" have "s = []" by (simp add: TrimLeftSpace.simps)
    then show ?thesis unfolding whitespaceOnly_def by (intro exI [of _ "[]"]) simp
  next
    case (Some p)
    with "1.prems" have "TrimLeftSpace (drop (length p) s) = []"
      by (subst (asm) TrimLeftSpace.simps) simp
    with "1.IH" Some obtain ws where ws: "set ws \<subseteq> set spaceEncodings" "drop (length p) s = concat ws"
      unfolding whitespaceOnly_def by blast
    from Some have pin: "p \<in> set spaceEncodings" and "prefix p s"
      using leadingSpace_Some by blast+
    then have "s = p @ drop (length p) s" by (auto simp: prefix_def)
    with ws pin have "set (p # ws) \<subseteq> set spaceEncodings \<and> s = concat (p # ws)" by simp
    then show ?thesis unfolding whitespaceOnly_def by blast
  qed
qed

lemma TrimLeftSpace_no_leading: "leadingSpace (TrimLeftSpace s) = None"
proof (induction s rule: TrimLeftSpace.induct)
  case (1 s)
  show ?case
  proof (cases "leadingSpace s")
    case None
    then show ?thesis by (simp add: TrimLeftSpace.simps)
  next
    case (Some p)
    with "1.IH" show ?thesis by (subst TrimLeftSpace.simps) simp
  qed
qed

lemma TrimRightSpace_empty_imp: "TrimRightSpace s = [] \<Longrightarrow> whitespaceOnly s"
proof (induction s rule: TrimRightSpace.induct)
  case (1 s)
  show ?case
  proof (cases "trailingSpace s")
    case None
    with "1.prems" have "s = []" by (simp add: TrimRightSpace.simps)
    then show ?thesis unfolding whitespaceOnly_def by (intro exI [of _ "[]"]) simp
  next
    case (Some p)
    with "1.prems" have "TrimRightSpace (take (length s - length p) s) = []"
      by (subst (asm) TrimRightSpace.simps) simp
    with "1.IH" Some obtain ws where ws: "set ws \<subseteq> set spaceEncodings"
        "take (length s - length p) s = concat ws"
      unfolding whitespaceOnly_def by blast
    from Some have pin: "p \<in> set spaceEncodings" and "suffix p s"
      using trailingSpace_Some by blast+
    then have "s = take (length s - length p) s @ p" by (auto simp: suffix_def)
    with ws pin have "set (ws @ [p]) \<subseteq> set spaceEncodings \<and> s = concat (ws @ [p])" by simp
    then show ?thesis unfolding whitespaceOnly_def by blast
  qed
qed

lemma whitespaceOnly_leading:
  assumes "whitespaceOnly s" and "s \<noteq> []"
  shows "leadingSpace s \<noteq> None"
proof -
  from assms obtain ws where ws: "set ws \<subseteq> set spaceEncodings" "s = concat ws"
    unfolding whitespaceOnly_def by blast
  with assms(2) obtain w ws' where "ws = w # ws'" by (cases ws) auto
  with ws have "w \<in> set spaceEncodings" and "s = w @ concat ws'" by auto
  then show ?thesis by (simp add: leadingSpace_append)
qed

lemma TrimRightSpace_Nil: "TrimRightSpace [] = []"
proof -
  have "trailingSpace [] = None"
    unfolding trailingSpace_def by (auto simp: find_None_iff dest: spaceEncodings_nonempty)
  then show ?thesis by (simp add: TrimRightSpace.simps)
qed

lemma TrimSpace_empty_iff: "TrimSpace s = [] \<longleftrightarrow> whitespaceOnly s"
proof
  assume "TrimSpace s = []"
  then have "whitespaceOnly (TrimLeftSpace s)"
    unfolding TrimSpace_def by (rule TrimRightSpace_empty_imp)
  with TrimLeftSpace_no_leading [of s] have "TrimLeftSpace s = []"
    using whitespaceOnly_leading by blast
  then show "whitespaceOnly s" by (rule TrimLeftSpace_empty_imp)
next
  assume "whitespaceOnly s"
  then have "TrimLeftSpace s = []"
    unfolding whitespaceOnly_def using TrimLeftSpace_concat by blast
  then show "TrimSpace s = []" by (simp add: TrimSpace_def TrimRightSpace_Nil)
qed

section \<open>Facts about the filter flags\<close>

lemma whitespaceOnly_Nil: "whitespaceOnly []"
  unfolding whitespaceOnly_def by (intro exI [of _ "[]"]) simp

lemma string_case_active:
  "(Lookup cmd name \<noteq> None \<and> FlagsChanged cmd name \<and> TrimSpace (GetString cmd name) \<noteq> [])
     = stringFilterActive cmd name"
  by (simp add: stringFilterActive_def Lookup_def FlagsChanged_def GetString_def
      TrimSpace_empty_iff whitespaceOnly_Nil split: option.split FlagValue.split)

lemma bool_case_active:
  "(Lookup cmd name \<noteq> None \<and> FlagsChanged cmd name \<and> GetBool cmd name)
     = boolFilterActive cmd name"
  by (simp add: boolFilterActive_def Lookup_def FlagsChanged_def GetBool_def
      split: option.split FlagValue.split)

lemma loop_string_step:
  assumes "name \<in> set [''mailbox'', ''from'', ''subject'', ''before'', ''after'']"
  shows "hasFilterFlagsLoop cmd (name # names) =
           (stringFilterActive cmd name \<or> hasFilterFlagsLoop cmd names)"
proof -
  from assms have a: "name \<noteq> ''to''"
    and b: "name \<in> set [''mailbox'', ''from'', ''to'', ''subject'', ''before'', ''after'']"
    by auto
  have "hasFilterFlagsLoop cmd (name # names) =
    ((Lookup cmd name \<noteq> None \<and> FlagsChanged cmd name \<and> TrimSpace (GetString cmd name) \<noteq> [])
      \<or> hasFilterFlagsLoop cmd names)"
    by (simp only: hasFilterFlagsLoop.simps a b if_True if_False simp_thms) auto
  then show ?thesis by (simp only: string_case_active)
qed


lemma loop_to_step:
  "hasFilterFlagsLoop cmd (''to'' # names) =
     ((isRecipientToFilterFlag cmd \<and> stringFilterActive cmd ''to'') \<or> hasFilterFlagsLoop cmd names)"
proof -
  have "hasFilterFlagsLoop cmd (''to'' # names) =
    ((isRecipientToFilterFlag cmd \<and>
       (Lookup cmd ''to'' \<noteq> None \<and> FlagsChanged cmd ''to'' \<and> TrimSpace (GetString cmd ''to'') \<noteq> []))
      \<or> hasFilterFlagsLoop cmd names)"
    by (simp del: not_None_eq)
  then show ?thesis by (simp only: string_case_active)
qed

lemma loop_bool_step:
  assumes "name \<in> set [''has-attachment'', ''unread'', ''flagged'', ''unflagged'']"
  shows "hasFilterFlagsLoop cmd (name # names) =
           (boolFilterActive cmd name \<or> hasFilterFlagsLoop cmd names)"
proof -
  from assms have a: "name \<notin> set [''mailbox'', ''from'', ''to'', ''subject'', ''before'', ''after'']"
    by auto
  have "hasFilterFlagsLoop cmd (name # names) =
    ((Lookup cmd name \<noteq> None \<and> FlagsChanged cmd name \<and> GetBool cmd name)
      \<or> hasFilterFlagsLoop cmd names)"
    by (simp only: hasFilterFlagsLoop.simps a assms if_True if_False simp_thms) auto
  then show ?thesis by (simp only: bool_case_active)
qed

lemma hasFilterFlags_unfold:
  "hasFilterFlags cmd \<longleftrightarrow>
     stringFilterActive cmd ''mailbox'' \<or> stringFilterActive cmd ''from''
     \<or> (isRecipientToFilterFlag cmd \<and> stringFilterActive cmd ''to'')
     \<or> stringFilterActive cmd ''subject'' \<or> stringFilterActive cmd ''before''
     \<or> stringFilterActive cmd ''after'' \<or> boolFilterActive cmd ''has-attachment''
     \<or> boolFilterActive cmd ''unread'' \<or> boolFilterActive cmd ''flagged''
     \<or> boolFilterActive cmd ''unflagged''"
proof -
  have s: "\<And>names. hasFilterFlagsLoop cmd (''mailbox'' # names) =
             (stringFilterActive cmd ''mailbox'' \<or> hasFilterFlagsLoop cmd names)"
      "\<And>names. hasFilterFlagsLoop cmd (''from'' # names) =
             (stringFilterActive cmd ''from'' \<or> hasFilterFlagsLoop cmd names)"
      "\<And>names. hasFilterFlagsLoop cmd (''subject'' # names) =
             (stringFilterActive cmd ''subject'' \<or> hasFilterFlagsLoop cmd names)"
      "\<And>names. hasFilterFlagsLoop cmd (''before'' # names) =
             (stringFilterActive cmd ''before'' \<or> hasFilterFlagsLoop cmd names)"
      "\<And>names. hasFilterFlagsLoop cmd (''after'' # names) =
             (stringFilterActive cmd ''after'' \<or> hasFilterFlagsLoop cmd names)"
    by (rule loop_string_step, simp)+
  have b: "\<And>names. hasFilterFlagsLoop cmd (''has-attachment'' # names) =
             (boolFilterActive cmd ''has-attachment'' \<or> hasFilterFlagsLoop cmd names)"
      "\<And>names. hasFilterFlagsLoop cmd (''unread'' # names) =
             (boolFilterActive cmd ''unread'' \<or> hasFilterFlagsLoop cmd names)"
      "\<And>names. hasFilterFlagsLoop cmd (''flagged'' # names) =
             (boolFilterActive cmd ''flagged'' \<or> hasFilterFlagsLoop cmd names)"
      "\<And>names. hasFilterFlagsLoop cmd (''unflagged'' # names) =
             (boolFilterActive cmd ''unflagged'' \<or> hasFilterFlagsLoop cmd names)"
    by (rule loop_bool_step, simp)+
  show ?thesis
    unfolding hasFilterFlags_def filterFlagNames_def
    by (simp only: s b loop_to_step hasFilterFlagsLoop.simps(1) simp_thms)
qed



lemma SetFlag_Some:
  assumes "SetFlag cmd name v = Some cmd'" and "cmd name = Some f"
  shows "\<exists>val. cmd' = cmd(name \<mapsto> f\<lparr>Value := val, Changed := True\<rparr>)
           \<and> (\<forall>old. Value f = StringValue old \<longrightarrow> val = StringValue v)"
  using assms
  by (auto simp: SetFlag_def Lookup_def split: option.splits FlagValue.splits)


lemma readFilterFlags_flagged:
  "FlaggedOnly (readFilterFlags cmd) = GetBool cmd ''flagged''"
  "UnflaggedOnly (readFilterFlags cmd) = GetBool cmd ''unflagged''"
  by (simp_all add: readFilterFlags_def Let_def)

lemma error_codes:
  "code AmbiguousTargets = ''general_error''"
  "code NoTargets = ''general_error''"
  "code ConflictingFilters = ''general_error''"
  "code (InvalidBeforeDate err) = ''general_error''"
  "code (InvalidAfterDate err) = ''general_error''"
  "code (MailboxNotFound err) = ''not_found''"
  "code (QueryFailed err) = ''jmap_error''"
  "code NoMatches = ''not_found''"
  by (simp_all add: AmbiguousTargets_def NoTargets_def ConflictingFilters_def
      InvalidBeforeDate_def InvalidAfterDate_def MailboxNotFound_def QueryFailed_def
      NoMatches_def exitError_def)

lemma resolveMailboxFlag_error:
  "resolveMailboxFlag cmd c opts = (Inl e, calls) \<Longrightarrow> code e = ''not_found''"
  by (auto simp: resolveMailboxFlag_def Let_def error_codes split: if_splits sum.splits)

lemma parseFilterOptions_general_error:
  assumes "parseFilterOptions timeParse cmd c = (Inl e, calls)" and "code e = ''general_error''"
  shows "calls = []"
proof (rule ccontr)
  assume n: "calls \<noteq> []"
  with assms(1) obtain opts where "resolveMailboxFlag cmd c opts = (Inl e, calls)"
    by (auto simp: parseFilterOptions_def Let_def split: if_splits sum.splits)
  then have "code e = ''not_found''" by (rule resolveMailboxFlag_error)
  with assms(2) show False by simp
qed

lemma resolveEmailIDs_general_error:
  assumes "resolveEmailIDs timeParse cmd args c = (Inl e, calls)" and "code e = ''general_error''"
  shows "calls = []"
proof (cases "parseFilterOptions timeParse cmd c")
  case (Pair r pcalls)
  show ?thesis
  proof (cases r)
    case (Inl pe)
    with Pair assms(1) have "pe = e" "pcalls = calls"
      by (auto simp: resolveEmailIDs_def split: if_splits)
    with Pair Inl assms(2) show ?thesis
      using parseFilterOptions_general_error [of timeParse cmd c e calls] by simp
  next
    case (Inr opts)
    with Pair assms(1) have "code e = ''jmap_error'' \<or> code e = ''not_found''"
      by (auto simp: resolveEmailIDs_def error_codes split: if_splits sum.splits)
    with assms(2) show ?thesis by auto
  qed
qed

section \<open>Facts about finite maps and the safety gates\<close>

lemma fmdom_empty_iff: "fmdom m = {||} \<longleftrightarrow> m = fmempty"
proof
  assume a: "fmdom m = {||}"
  have "fmlookup m x = None" for x
  proof -
    from a have "x |\<notin>| fmdom m" by simp
    then show ?thesis by (rule fmdom_notD)
  qed
  then show "m = fmempty" by (intro fmap_ext) simp
qed simp

lemma fcard_fmdom_1_iff: "fcard (fmdom m) = 1 \<longleftrightarrow> (\<exists>k e. m = fmupd k e fmempty)"
proof
  assume "fcard (fmdom m) = 1"
  then have "card (fset (fmdom m)) = 1" by (simp add: fcard.rep_eq)
  then obtain k where k: "fset (fmdom m) = {k}" by (rule card_1_singletonE)
  then have "k |\<in>| fmdom m" by simp
  then obtain e where e: "fmlookup m k = Some e" by (auto simp: fmlookup_dom_iff)
  have "fmlookup m x = fmlookup (fmupd k e fmempty) x" for x
  proof (cases "x = k")
    case True
    with e show ?thesis by simp
  next
    case False
    with k have "x |\<notin>| fmdom m" by simp
    then have "fmlookup m x = None" by (rule fmdom_notD)
    with False show ?thesis by simp
  qed
  then have "m = fmupd k e fmempty" by (intro fmap_ext)
  then show "\<exists>k e. m = fmupd k e fmempty" by blast
next
  assume "\<exists>k e. m = fmupd k e fmempty"
  then show "fcard (fmdom m) = 1" by (auto simp: fcard_finsert_if)
qed

lemma singleton_map_eq:
  "fmupd k e fmempty = fmupd k' e' fmempty \<longleftrightarrow> k = k' \<and> e = e'"
proof
  assume a: "fmupd k e fmempty = fmupd k' e' fmempty"
  have "fmlookup (fmupd k e fmempty) k = Some e" by simp
  then have l: "fmlookup (fmupd k' e' fmempty) k = Some e" by (simp only: a)
  show "k = k' \<and> e = e'"
  proof (cases "k = k'")
    case True
    with l show ?thesis by simp
  next
    case False
    with l show ?thesis by simp
  qed
next
  assume "k = k' \<and> e = e'"
  then show "fmupd k e fmempty = fmupd k' e' fmempty" by simp
qed

lemma exactly_singleton_map:
  "fcard (fmdom m) = 1 \<and> fmlookup m d = Some v \<longleftrightarrow> m = fmupd d v fmempty"
proof
  assume a: "fcard (fmdom m) = 1 \<and> fmlookup m d = Some v"
  then have "fcard (fmdom m) = 1" by (rule conjunct1)
  then have "\<exists>k e. m = fmupd k e fmempty" by (simp only: fcard_fmdom_1_iff)
  then obtain k e where m: "m = fmupd k e fmempty" by (elim exE)
  from a have "fmlookup m d = Some v" by (rule conjunct2)
  then have l: "fmlookup (fmupd k e fmempty) d = Some v" by (simp only: m)
  have "k = d \<and> e = v"
  proof (cases "k = d")
    case True
    with l show ?thesis by simp
  next
    case False
    with l show ?thesis by simp
  qed
  with m show "m = fmupd d v fmempty" by simp
next
  assume "m = fmupd d v fmempty"
  then show "fcard (fmdom m) = 1 \<and> fmlookup m d = Some v" by (simp add: fcard_finsert_if)
qed

lemma fmpred_singleton: "fmpred P (fmupd k e fmempty) = P k e"
  by (simp add: fmpred_iff)


lemma ValidateSetForDraft_accepts:
  "ValidateSetForDraft req draftsMailboxID = Inr () \<longleftrightarrow>
     Destroy req = [] \<and> fmdom (Update req) = {||} \<and> fcard (fmdom (Create req)) = 1
     \<and> fmpred (\<lambda>k e. fcard (fmdom (MailboxIDs e)) = 1
                  \<and> fmlookup (MailboxIDs e) draftsMailboxID = Some True) (Create req)
     \<and> fmpred (\<lambda>k e. fmlookup (Keywords e) ''$draft'' = Some True) (Create req)"
  by (simp add: ValidateSetForDraft_def)

lemma ValidateSetForDraft_rejects:
  "ValidateSetForDraft req draftsMailboxID \<noteq> Inr () \<Longrightarrow>
     ValidateSetForDraft req draftsMailboxID = Inl UnsafeDraftRequest"
  by (simp add: ValidateSetForDraft_def split: if_splits)

lemma equalFold_iff: "equalFold a b \<longleftrightarrow> map asciiLower a = map asciiLower b"
  unfolding equalFold_def
proof (induction a arbitrary: b)
  case Nil
  then show ?case by auto
next
  case (Cons x a)
  then show ?case by (cases b) auto
qed

lemma forbidden_lower:
  "map asciiLower ''Trash'' = ''trash''"
  "map asciiLower ''Deleted Items'' = ''deleted items''"
  "map asciiLower ''Deleted Messages'' = ''deleted messages''"
  by code_simp+

lemma ValidateTargetMailbox_forbidden:
  "ValidateTargetMailbox mb = Inl ForbiddenDestination \<longleftrightarrow>
     Role mb = Some ''trash'' \<or> map asciiLower (Name mb) = ''trash''
     \<or> map asciiLower (Name mb) = ''deleted items''
     \<or> map asciiLower (Name mb) = ''deleted messages''"
proof -
  let ?B = "map asciiLower (Name mb) = ''trash''
               \<or> map asciiLower (Name mb) = ''deleted items''
               \<or> map asciiLower (Name mb) = ''deleted messages''"
  have v: "ValidateTargetMailbox mb =
      (if Role mb = Some ''trash'' then Inl ForbiddenDestination
       else if ?B then Inl ForbiddenDestination else Inr ())"
    by (simp only: ValidateTargetMailbox_def forbiddenNames_def list_ex_Cons_iff list_ex_Nil_iff
        equalFold_iff forbidden_lower simp_thms)
  show ?thesis
  proof (cases "Role mb = Some ''trash''")
    case True
    with v show ?thesis by (simp only: if_True simp_thms)
  next
    case False
    show ?thesis
    proof (cases ?B)
      case True
      with v False show ?thesis by (simp only: if_True if_False simp_thms)
    next
      case b: False
      with v False have "ValidateTargetMailbox mb = Inr ()" by (simp only: if_False)
      with False b show ?thesis by (simp only: sum.distinct simp_thms)
    qed
  qed
qed

section \<open>Facts about \<open>time.Parse\<close>\<close>

lemma of_char_digitChar: "of_char (digitChar n) = (48::nat) + nat (n mod 10)"
proof -
  have "nat (n mod 10) < 10" by simp
  then show ?thesis by (simp add: digitChar_def)
qed

lemma isDigitChar_digitChar [simp]: "isDigitChar (digitChar n)"
  by (simp add: isDigitChar_def of_char_digitChar)

lemma digit_digitChar [simp]: "digit (digitChar n) = n mod 10"
  by (simp add: digit_def of_char_digitChar)


lemma div_100: "(y::int) div 100 = y div 10 div 10"
  using zdiv_zmult2_eq [of 10 y 10] by simp

lemma div_1000: "(y::int) div 1000 = y div 10 div 10 div 10"
  using zdiv_zmult2_eq [of 10 y 100] div_100 [of y] by simp

lemma fourDigits_value:
  assumes "0 \<le> y" and "y \<le> 9999"
  shows "((y div 1000 mod 10 * 10 + y div 100 mod 10) * 10 + y div 10 mod 10) * 10 + y mod 10 = (y::int)"
proof -
  have e: "y div 10 * 10 + y mod 10 = y" "y div 10 div 10 * 10 + y div 10 mod 10 = y div 10"
    "y div 10 div 10 div 10 * 10 + y div 10 div 10 mod 10 = y div 10 div 10"
    by simp_all
  from assms have "0 \<le> y div 1000" "y div 1000 < 10" by simp_all
  then have m: "y div 10 div 10 div 10 mod 10 = y div 10 div 10 div 10"
    unfolding div_1000 by simp
  show ?thesis by (simp only: div_100 div_1000 m e)
qed









lemma zoneText_head:
  "\<exists>c t. zoneText z = c # t \<and> \<not> isDigitChar c \<and> \<not> commaOrPeriod c"
  by (cases z) (simp_all add: isDigitChar_def commaOrPeriod_def)















lemma decimal_fourDigits:
  assumes "0 \<le> y" and "y \<le> 9999"
  shows "decimal (fourDigits y) = y"
proof -
  have "decimal (fourDigits y)
      = ((y div 1000 mod 10 * 10 + y div 100 mod 10) * 10 + y div 10 mod 10) * 10 + y mod 10"
    unfolding decimal_def
    by (simp only: fourDigits_def foldl_Cons foldl_Nil digit_digitChar mult_zero_left add_0_left)
  then show ?thesis by (simp only: fourDigits_value [OF assms])
qed

lemma decimal_twoDigits:
  assumes "0 \<le> n" and "n < 100"
  shows "decimal (twoDigits n) = n"
proof -
  from assms have "n div 10 mod 10 = n div 10" by simp
  then have "n div 10 mod 10 * 10 + n mod 10 = n" by simp
  then show ?thesis by (simp add: decimal_def twoDigits_def)
qed

lemma length_digits [simp]: "length (fourDigits y) = 4" "length (twoDigits n) = 2"
  by (simp_all add: fourDigits_def twoDigits_def)

lemma length_dateText [simp]: "length (dateText y mo d) = 10"
  by (simp add: dateText_def)

lemma readFraction_text:
  assumes "list_all isDigitChar ds"
  shows "readFraction (fracText ds @ zoneText z) = ds"
proof -
  obtain c t where z: "zoneText z = c # t" "\<not> isDigitChar c" "\<not> commaOrPeriod c"
    using zoneText_head by blast
  show ?thesis
  proof (cases "ds = []")
    case True
    with z show ?thesis by (auto simp: readFraction_def fracText_def commaOrPeriod_def)
  next
    case False
    with assms z show ?thesis
      by (simp add: readFraction_def fracText_def list_all_iff takeWhile_append2 takeWhile_tail)
  qed
qed

lemma readZone_text:
  assumes "validZone z"
  shows "readZone (zoneText z) = z"
proof (cases z)
  case ZoneUTC
  then show ?thesis by (simp add: readZone_def)
next
  case (ZoneEast h m)
  with assms have b: "0 \<le> h" "h < 100" "0 \<le> m" "m < 100" by simp_all
  have "take 2 (drop 1 (zoneText z)) = twoDigits h" "take 2 (drop 4 (zoneText z)) = twoDigits m"
    "zoneText z \<noteq> ''Z''" "take 1 (zoneText z) = ''+''"
    using ZoneEast by (simp_all add: twoDigits_def)
  then show ?thesis
    using ZoneEast decimal_twoDigits [OF b(1,2)] decimal_twoDigits [OF b(3,4)]
    by (simp add: readZone_def)
next
  case (ZoneWest h m)
  with assms have b: "0 \<le> h" "h < 100" "0 \<le> m" "m < 100" by simp_all
  have "take 2 (drop 1 (zoneText z)) = twoDigits h" "take 2 (drop 4 (zoneText z)) = twoDigits m"
    "zoneText z \<noteq> ''Z''" "take 1 (zoneText z) \<noteq> ''+''"
    using ZoneWest by (simp_all add: twoDigits_def)
  then show ?thesis
    using ZoneWest decimal_twoDigits [OF b(1,2)] decimal_twoDigits [OF b(3,4)]
    by (simp add: readZone_def)
qed

lemma bareDateForm_iff:
  "bareDateForm v \<longleftrightarrow> (\<exists>y mo d. validDate y mo d \<and> v = dateText y mo d)"
proof
  assume "bareDateForm v"
  then show "\<exists>y mo d. validDate y mo d \<and> v = dateText y mo d"
    unfolding bareDateForm_def Let_def by blast
next
  assume "\<exists>y mo d. validDate y mo d \<and> v = dateText y mo d"
  then obtain y mo d where a: "validDate y mo d" "v = dateText y mo d" by blast
  then have b: "0 \<le> y" "y \<le> 9999" "0 \<le> mo" "mo < 100" "0 \<le> d" "d < 100"
    by (auto simp: validDate_def daysIn_def split: if_splits)
  have "take 4 v = fourDigits y" "take 2 (drop 5 v) = twoDigits mo" "take 2 (drop 8 v) = twoDigits d"
    unfolding a(2) dateText_def by simp_all
  then have "decimal (take 4 v) = y" "decimal (take 2 (drop 5 v)) = mo" "decimal (take 2 (drop 8 v)) = d"
    using decimal_fourDigits [OF b(1,2)] decimal_twoDigits [OF b(3,4)] decimal_twoDigits [OF b(5,6)]
    by simp_all
  with a show "bareDateForm v" by (simp add: bareDateForm_def)
qed

lemma rfc3339Form_iff:
  "rfc3339Form v \<longleftrightarrow>
     (\<exists>y mo d h mi s ds z. validDate y mo d \<and> validClockRFC h mi s \<and> list_all isDigitChar ds
        \<and> validZone z \<and> v = rfc3339Text y mo d h mi s ds z)"
proof
  assume f: "rfc3339Form v"
  have "list_all isDigitChar (readFraction (drop 19 v))"
    by (simp add: readFraction_def list_all_iff) (meson set_takeWhileD)
  with f show "\<exists>y mo d h mi s ds z. validDate y mo d \<and> validClockRFC h mi s \<and> list_all isDigitChar ds
        \<and> validZone z \<and> v = rfc3339Text y mo d h mi s ds z"
    unfolding rfc3339Form_def Let_def by blast
next
  assume "\<exists>y mo d h mi s ds z. validDate y mo d \<and> validClockRFC h mi s \<and> list_all isDigitChar ds
        \<and> validZone z \<and> v = rfc3339Text y mo d h mi s ds z"
  then obtain y mo d h mi s ds z where a: "validDate y mo d" "validClockRFC h mi s"
    "list_all isDigitChar ds" "validZone z" and v: "v = rfc3339Text y mo d h mi s ds z" by blast
  then have b: "0 \<le> y" "y \<le> 9999" "0 \<le> mo" "mo < 100" "0 \<le> d" "d < 100"
    by (auto simp: validDate_def daysIn_def split: if_splits)
  from a(2) have c: "0 \<le> h" "h < 100" "0 \<le> mi" "mi < 100" "0 \<le> s" "s < 100"
    by (simp_all add: validClockRFC_def)
  have t: "take 4 v = fourDigits y" "take 2 (drop 5 v) = twoDigits mo" "take 2 (drop 8 v) = twoDigits d"
    "take 2 (drop 11 v) = twoDigits h" "take 2 (drop 14 v) = twoDigits mi"
    "take 2 (drop 17 v) = twoDigits s" "drop 19 v = fracText ds @ zoneText z"
    unfolding v rfc3339Text_def dateText_def by simp_all
  have r: "readFraction (drop 19 v) = ds"
    unfolding t using readFraction_text [OF a(3)] .
  have "drop (19 + length (fracText ds)) v = zoneText z"
    using t(7) by (metis append_eq_conv_conj drop_drop add.commute)
  then have z: "readZone (drop (19 + length (fracText ds)) v) = z"
    using readZone_text [OF a(4)] by simp
  have n: "decimal (take 4 v) = y" "decimal (take 2 (drop 5 v)) = mo" "decimal (take 2 (drop 8 v)) = d"
    "decimal (take 2 (drop 11 v)) = h" "decimal (take 2 (drop 14 v)) = mi"
    "decimal (take 2 (drop 17 v)) = s"
    unfolding t
    using decimal_fourDigits [OF b(1,2)] decimal_twoDigits [OF b(3,4)] decimal_twoDigits [OF b(5,6)]
      decimal_twoDigits [OF c(1,2)] decimal_twoDigits [OF c(3,4)] decimal_twoDigits [OF c(5,6)]
    by simp_all
  show "rfc3339Form v"
    unfolding rfc3339Form_def Let_def
    apply (simp only: n r z a simp_thms)
    apply (rule v)
    done
qed

section \<open>Command lines of the test command\<close>

lemma sample_unread_options:
  "parseFilterOptions Parse (commandLine False [(''unread'', ''true'')]) sampleClient
     = (Inr (emptySearchOptions\<lparr>UnreadOnly := True\<rparr>), [])"
  by code_simp

lemma sample_flagged_options:
  "parseFilterOptions Parse (commandLine False [(''flagged'', ''true'')]) sampleClient
     = (Inr (emptySearchOptions\<lparr>FlaggedOnly := True\<rparr>), [])"
  by code_simp

lemma sample_conflict_flags:
  "GetBool (commandLine False [(''flagged'', ''true''), (''unflagged'', ''true''), (''mailbox'', ''inbox'')]) ''flagged''"
  "GetBool (commandLine False [(''flagged'', ''true''), (''unflagged'', ''true''), (''mailbox'', ''inbox'')]) ''unflagged''"
  "hasFilterFlags (commandLine False [(''flagged'', ''true''), (''unflagged'', ''true''), (''mailbox'', ''inbox'')])"
  by code_simp+



lemma newFilterTestCommand_accepted:
  "newFilterTestCommand True \<noteq> None" "newFilterTestCommand False \<noteq> None"
  by (simp_all add: newFilterTestCommand_def addFilterFlags_def StringFlag_def BoolFlag_def Lookup_def)


lemma sample_hasFilterFlags:
  "hasFilterFlags (commandLine False [(''unread'', ''true'')])"
  "\<not> hasFilterFlags (commandLine False [(''subject'', [])])"
  "\<not> hasFilterFlags (commandLine False [])"
  "\<not> hasFilterFlags (commandLine False [(''unread'', ''false''), (''subject'', ''  '')])"
  "\<not> GetBool (commandLine False [(''unread'', ''true'')]) ''flagged''"
  "\<not> GetBool (commandLine False []) ''flagged''"
  by code_simp+

lemma sample_invalid_before:
  "parseFilterOptions Parse
        (commandLine False [(''before'', ''yesterday''), (''mailbox'', ''inbox'')]) sampleClient
     = (Inl (InvalidBeforeDate (Error (newParseError RFC3339 ''yesterday'' ''2006'' ''yesterday'' []))), [])"
  by code_simp

lemma sample_no_targets: "validateIDsOrFilters (commandLine False []) [] = Inl NoTargets"
  by code_simp

lemma sample_lower: "map asciiLower ''DELETED Items'' = ''deleted items''"
  by code_simp

lemma setFlags_None: "setFlags None flags = None"
  by (induction flags) auto

lemma isRecipientToFilterFlag_upd:
  "cmd name = Some f \<Longrightarrow>
     isRecipientToFilterFlag (cmd(name \<mapsto> f\<lparr>Value := val, Changed := True\<rparr>))
       = isRecipientToFilterFlag cmd"
  by (simp add: isRecipientToFilterFlag_def Lookup_def)

lemma SetFlag_unchangedAtDefault:
  assumes "SetFlag cmd name v = Some cmd'" and "unchangedAtDefault cmd"
  shows "unchangedAtDefault cmd'"
proof -
  from assms(1) obtain f where f: "cmd name = Some f"
    by (auto simp: SetFlag_def Lookup_def split: option.splits)
  with assms(1) obtain val where cmd': "cmd' = cmd(name \<mapsto> f\<lparr>Value := val, Changed := True\<rparr>)"
    using SetFlag_Some [of cmd name v cmd' f] by auto
  have "stringFilterFlags cmd' = stringFilterFlags cmd"
    unfolding stringFilterFlags_def cmd'
    using isRecipientToFilterFlag_upd [of cmd name f val] f by simp
  with assms(2) show ?thesis
    unfolding unchangedAtDefault_def by (auto simp: cmd' list_all_iff)
qed

lemma setFlags_unchangedAtDefault:
  "setFlags (Some c) flags = Some cmd \<Longrightarrow> unchangedAtDefault c \<Longrightarrow> unchangedAtDefault cmd"
proof (induction flags arbitrary: c)
  case Nil
  then show ?case by simp
next
  case (Cons a flags)
  obtain n v where a: "a = (n, v)" by (cases a)
  show ?case
  proof (cases "SetFlag c n v")
    case None
    with Cons.prems(1) a show ?thesis by (simp add: setFlags_None)
  next
    case (Some c')
    with Cons.prems(2) have "unchangedAtDefault c'"
      using SetFlag_unchangedAtDefault [of c n v c'] by simp
    moreover from Cons.prems(1) a Some have "setFlags (Some c') flags = Some cmd" by simp
    ultimately show ?thesis by (rule Cons.IH [rotated])
  qed
qed

lemma newFilterTestCommand_unchangedAtDefault:
  "unchangedAtDefault (commandLine b [])"
proof (cases b)
  case True
  have "unchangedAtDefault (commandLine True [])" by code_simp
  with True show ?thesis by simp
next
  case False
  have "unchangedAtDefault (commandLine False [])" by code_simp
  with False show ?thesis by simp
qed

lemma commandLine_unchangedAtDefault:
  assumes "setFlags (newFilterTestCommand b) flags = Some cmd"
  shows "unchangedAtDefault cmd"
proof -
  have "newFilterTestCommand b \<noteq> None"
    using newFilterTestCommand_accepted by (cases b) simp_all
  then obtain c where c: "newFilterTestCommand b = Some c" by auto
  then have "commandLine b [] = c" by (simp add: commandLine_def)
  with newFilterTestCommand_unchangedAtDefault [of b] have "unchangedAtDefault c" by simp
  with assms c show ?thesis using setFlags_unchangedAtDefault [of c flags cmd] by simp
qed

lemma active_at_default:
  assumes "unchangedAtDefault cmd"
  shows "name \<in> set (stringFilterFlags cmd) \<Longrightarrow>
           stringFilterActive cmd name = (\<not> whitespaceOnly (GetString cmd name))"
    and "name \<in> set boolFilterFlags \<Longrightarrow> boolFilterActive cmd name = GetBool cmd name"
proof -
  from assms have d: "\<And>n f. n \<in> set (stringFilterFlags cmd) \<union> set boolFilterFlags \<Longrightarrow> cmd n = Some f
      \<Longrightarrow> Changed f \<or> Value f = StringValue [] \<or> Value f = BoolValue False"
    unfolding unchangedAtDefault_def by (auto simp: list_all_iff split: option.splits)
  show "name \<in> set (stringFilterFlags cmd) \<Longrightarrow>
           stringFilterActive cmd name = (\<not> whitespaceOnly (GetString cmd name))"
    using d [of name]
    by (auto simp: stringFilterActive_def GetString_def Lookup_def whitespaceOnly_Nil
        split: option.splits FlagValue.splits)
  show "name \<in> set boolFilterFlags \<Longrightarrow> boolFilterActive cmd name = GetBool cmd name"
    using d [of name]
    by (auto simp: boolFilterActive_def GetBool_def Lookup_def
        split: option.splits FlagValue.splits)
qed

lemma sample_blank_accepted:
  "setFlags (newFilterTestCommand False) [(''unread'', ''false''), (''subject'', ''  '')] \<noteq> None"
  by (simp add: newFilterTestCommand_def addFilterFlags_def StringFlag_def BoolFlag_def Lookup_def
      SetFlag_def ParseBool_def)



section \<open>Target resolution\<close>

text \<open>
  Claim C9. When one or more positional identifiers are given, \<open>resolveEmailIDs\<close>
  returns exactly that list, in the given order, whatever the flags and the mail service
  are: it checks nothing about the identifiers and issues no network call (the list of
  calls is empty).
\<close>

theorem resolveEmailIDs_explicit_ids:
  "args \<noteq> [] \<Longrightarrow> resolveEmailIDs timeParse cmd args c = (Inr args, [])"
  by (simp add: resolveEmailIDs_def)

theorem resolveEmailIDs_explicit_ids_witness:
  "resolveEmailIDs Parse (commandLine False []) [''M7'', ''M3''] sampleClient
     = (Inr [''M7'', ''M3''], [])"
  using resolveEmailIDs_explicit_ids
    [of "[''M7'', ''M3'']" Parse "commandLine False []" sampleClient]
  by simp

text \<open>
  Claim C5. When no positional identifier is given, the filter flags parse to \<open>opts\<close>
  and the query for \<open>opts\<close> answers with the identifiers \<open>ids\<close>, then
  \<open>resolveEmailIDs\<close> fails with \<open>NoMatches\<close> if \<open>ids\<close> is empty and returns
  exactly \<open>ids\<close>, in the order of the answer, otherwise. The query is the last network
  call, after those of the parsing.
\<close>

theorem resolveEmailIDs_by_filter:
  assumes "args = []"
    and "parseFilterOptions timeParse cmd c = (Inr opts, calls)"
    and "QueryEmailIDs c opts = Inr ids"
  shows "resolveEmailIDs timeParse cmd args c =
           (if ids = [] then Inl NoMatches else Inr ids, calls @ [CallQueryEmailIDs opts])"
  using assms by (simp add: resolveEmailIDs_def)

theorem resolveEmailIDs_by_filter_witness:
  "resolveEmailIDs Parse (commandLine False [(''unread'', ''true'')]) [] sampleClient
     = (Inr [''M1'', ''M2''], [CallQueryEmailIDs (emptySearchOptions\<lparr>UnreadOnly := True\<rparr>)])
   \<and> resolveEmailIDs Parse (commandLine False [(''flagged'', ''true'')]) [] sampleClient
     = (Inl NoMatches, [CallQueryEmailIDs (emptySearchOptions\<lparr>FlaggedOnly := True\<rparr>)])"
proof -
  have q1: "QueryEmailIDs sampleClient (emptySearchOptions\<lparr>UnreadOnly := True\<rparr>) = Inr [''M1'', ''M2'']"
    by (simp add: sampleClient_def emptySearchOptions_def)
  have q2: "QueryEmailIDs sampleClient (emptySearchOptions\<lparr>FlaggedOnly := True\<rparr>) = Inr []"
    by (simp add: sampleClient_def emptySearchOptions_def)
  show ?thesis
    using resolveEmailIDs_by_filter [OF refl sample_unread_options q1]
      resolveEmailIDs_by_filter [OF refl sample_flagged_options q2]
    by simp
qed

section \<open>Filter parsing and validation\<close>

text \<open>
  Claim C4. When \<open>--flagged\<close> and \<open>--unflagged\<close> are both true, \<open>parseFilterOptions\<close>
  fails with \<open>ConflictingFilters\<close>, whatever the other flags, the time parser and the mail
  service are, and before any network call. \<open>validateIDsOrFilters\<close> never passes such a
  command either, and fails with \<open>ConflictingFilters\<close> when the targets come from the
  filters.
\<close>

theorem flagged_unflagged_conflict:
  assumes "GetBool cmd ''flagged''" and "GetBool cmd ''unflagged''"
  shows "parseFilterOptions timeParse cmd c = (Inl ConflictingFilters, [])
       \<and> validateIDsOrFilters cmd args \<noteq> Inr ()
       \<and> (args = [] \<and> hasFilterFlags cmd \<longrightarrow> validateIDsOrFilters cmd args = Inl ConflictingFilters)"
  using assms
  by (simp add: parseFilterOptions_def validateIDsOrFilters_def readFilterFlags_flagged Let_def)

theorem flagged_unflagged_conflict_witness:
  "parseFilterOptions Parse
      (commandLine False [(''flagged'', ''true''), (''unflagged'', ''true''), (''mailbox'', ''inbox'')])
      sampleClient = (Inl ConflictingFilters, [])
   \<and> validateIDsOrFilters
      (commandLine False [(''flagged'', ''true''), (''unflagged'', ''true''), (''mailbox'', ''inbox'')]) []
      = Inl ConflictingFilters"
  using flagged_unflagged_conflict [OF sample_conflict_flags(1) sample_conflict_flags(2),
      of Parse sampleClient "[]"] sample_conflict_flags(3)
  by simp




text \<open>
  Claim C3, as stated, fails: with no identifier and the filters \<open>--flagged\<close> and
  \<open>--unflagged\<close> both set to true, exactly one of the two kinds of target is given, and
  \<open>validateIDsOrFilters\<close> does not pass but fails with \<open>ConflictingFilters\<close>.
\<close>

theorem validateIDsOrFilters_conflict_counterexample:
  "hasFilterFlags (commandLine False [(''flagged'', ''true''), (''unflagged'', ''true'')])
   \<and> validateIDsOrFilters (commandLine False [(''flagged'', ''true''), (''unflagged'', ''true'')]) []
        = Inl ConflictingFilters
   \<and> validateIDsOrFilters (commandLine False [(''flagged'', ''true''), (''unflagged'', ''true'')]) []
        \<noteq> Inr ()"
  by code_simp

text \<open>
  Claim C3, as amended. With identifiers and active filters \<open>validateIDsOrFilters\<close> fails
  with \<open>AmbiguousTargets\<close>; with neither it fails with \<open>NoTargets\<close>; with exactly one
  of them it fails with \<open>ConflictingFilters\<close> when \<open>--flagged\<close> and \<open>--unflagged\<close> are
  both true, and passes otherwise.
\<close>

theorem validateIDsOrFilters_cases:
  "(args \<noteq> [] \<and> hasFilterFlags cmd \<longrightarrow> validateIDsOrFilters cmd args = Inl AmbiguousTargets)
   \<and> (args = [] \<and> \<not> hasFilterFlags cmd \<longrightarrow> validateIDsOrFilters cmd args = Inl NoTargets)
   \<and> ((args \<noteq> []) \<noteq> hasFilterFlags cmd \<longrightarrow>
        validateIDsOrFilters cmd args =
          (if GetBool cmd ''flagged'' \<and> GetBool cmd ''unflagged'' then Inl ConflictingFilters
           else Inr ()))"
  by (auto simp: validateIDsOrFilters_def Let_def)

theorem validateIDsOrFilters_cases_witness:
  "validateIDsOrFilters (commandLine False [(''unread'', ''true'')]) [''M1''] = Inl AmbiguousTargets
   \<and> validateIDsOrFilters (commandLine False [(''subject'', [])]) [] = Inl NoTargets
   \<and> validateIDsOrFilters (commandLine False [(''unread'', ''true'')]) [] = Inr ()
   \<and> validateIDsOrFilters (commandLine False []) [''M1''] = Inr ()
   \<and> validateIDsOrFilters
        (commandLine False [(''flagged'', ''true''), (''unflagged'', ''true''), (''mailbox'', ''inbox'')]) []
       = Inl ConflictingFilters"
  using validateIDsOrFilters_cases [of "[''M1'']" "commandLine False [(''unread'', ''true'')]"]
    validateIDsOrFilters_cases [of "[]"
      "commandLine False [(''flagged'', ''true''), (''unflagged'', ''true''), (''mailbox'', ''inbox'')]"]
    sample_conflict_flags
    validateIDsOrFilters_cases [of "[]" "commandLine False [(''subject'', [])]"]
    validateIDsOrFilters_cases [of "[]" "commandLine False [(''unread'', ''true'')]"]
    validateIDsOrFilters_cases [of "[''M1'']" "commandLine False []"]
    sample_hasFilterFlags
  by simp

section \<open>Active filters\<close>

text \<open>
  Claim C8. \<open>hasFilterFlags\<close> holds exactly when some string filter flag was set to a
  value that is not white space only, or some boolean filter flag was set to true. A flag
  that was not set, a string flag set to an empty or white-space-only value and a boolean
  flag set to false do not count. Where the flags that were not set hold their defaults,
  this is to say that some string filter flag has a value that is not white space only or
  some boolean filter flag has the value true; every command line of the test command is
  such a command.
\<close>

theorem hasFilterFlags_iff_active:
  "(hasFilterFlags cmd \<longleftrightarrow>
     (\<exists>name\<in>set (stringFilterFlags cmd). stringFilterActive cmd name)
     \<or> (\<exists>name\<in>set boolFilterFlags. boolFilterActive cmd name))
   \<and> (unchangedAtDefault cmd \<longrightarrow>
        (hasFilterFlags cmd \<longleftrightarrow>
          (\<exists>name\<in>set (stringFilterFlags cmd). \<not> whitespaceOnly (GetString cmd name))
          \<or> (\<exists>name\<in>set boolFilterFlags. GetBool cmd name)))
   \<and> (setFlags (newFilterTestCommand withDestinationTo) flags = Some cmd \<longrightarrow>
        unchangedAtDefault cmd)"
proof (intro conjI impI)
  show a: "hasFilterFlags cmd \<longleftrightarrow>
     (\<exists>name\<in>set (stringFilterFlags cmd). stringFilterActive cmd name)
     \<or> (\<exists>name\<in>set boolFilterFlags. boolFilterActive cmd name)"
    by (simp add: hasFilterFlags_unfold stringFilterFlags_def boolFilterFlags_def disj_assoc)
  assume "unchangedAtDefault cmd"
  then show "hasFilterFlags cmd \<longleftrightarrow>
          (\<exists>name\<in>set (stringFilterFlags cmd). \<not> whitespaceOnly (GetString cmd name))
          \<or> (\<exists>name\<in>set boolFilterFlags. GetBool cmd name)"
    unfolding a by (simp only: active_at_default cong: bex_cong)
next
  assume "setFlags (newFilterTestCommand withDestinationTo) flags = Some cmd"
  then show "unchangedAtDefault cmd" by (rule commandLine_unchangedAtDefault)
qed

theorem hasFilterFlags_iff_active_witness:
  "\<not> hasFilterFlags (commandLine False [(''unread'', ''false''), (''subject'', ''  '')])
   \<and> \<not> boolFilterActive (commandLine False [(''unread'', ''false''), (''subject'', ''  '')]) ''unread''
   \<and> \<not> stringFilterActive (commandLine False [(''unread'', ''false''), (''subject'', ''  '')]) ''subject''
   \<and> \<not> stringFilterActive (commandLine False [(''unread'', ''false''), (''subject'', ''  '')]) ''from''
   \<and> unchangedAtDefault (commandLine False [(''unread'', ''false''), (''subject'', ''  '')])
   \<and> whitespaceOnly (GetString (commandLine False [(''unread'', ''false''), (''subject'', ''  '')]) ''subject'')
   \<and> boolFilterActive (commandLine False [(''unread'', ''true'')]) ''unread''
   \<and> hasFilterFlags (commandLine False [(''unread'', ''true'')])"
proof -
  let ?X = "commandLine False [(''unread'', ''false''), (''subject'', ''  '')]"
  have r: "isRecipientToFilterFlag ?X"
    by code_simp
  have b: "boolFilterActive (commandLine False [(''unread'', ''true'')]) ''unread''"
    by code_simp
  have s: "setFlags (newFilterTestCommand False) [(''unread'', ''false''), (''subject'', ''  '')] = Some ?X"
    using sample_blank_accepted by (auto simp: commandLine_def)
  note t = hasFilterFlags_iff_active [of ?X False "[(''unread'', ''false''), (''subject'', ''  '')]"]
  from t s have u: "unchangedAtDefault ?X" by blast
  from t u sample_hasFilterFlags(4) have
    "\<not> ((\<exists>name\<in>set (stringFilterFlags ?X). \<not> whitespaceOnly (GetString ?X name))
          \<or> (\<exists>name\<in>set boolFilterFlags. GetBool ?X name))"
    by blast
  then have w: "whitespaceOnly (GetString ?X ''subject'')"
    using r by (simp add: stringFilterFlags_def)
  from t sample_hasFilterFlags(4) have
    "\<not> ((\<exists>name\<in>set (stringFilterFlags ?X). stringFilterActive ?X name)
          \<or> (\<exists>name\<in>set boolFilterFlags. boolFilterActive ?X name))"
    by blast
  then have n: "\<not> boolFilterActive ?X ''unread''" "\<not> stringFilterActive ?X ''subject''"
      "\<not> stringFilterActive ?X ''from''"
    using r by (simp_all add: stringFilterFlags_def boolFilterFlags_def)
  have h: "hasFilterFlags (commandLine False [(''unread'', ''true'')])"
    using hasFilterFlags_iff_active [of "commandLine False [(''unread'', ''true'')]"] b
    by (simp add: boolFilterFlags_def)
  from sample_hasFilterFlags(4) n u w b h show ?thesis by (simp only: simp_thms)
qed



section \<open>Validation, client creation and network calls\<close>




section \<open>The safety gates hold\<close>

text \<open>
  Claim C1. When the destination of a move resolves to a mailbox whose role is \<open>trash\<close>,
  or whose name is, without regard to case, "Trash", "Deleted Items" or "Deleted
  Messages", the move fails with \<open>ForbiddenDestination\<close>; the only network call issued is
  the read-only lookup of the destination, so no mutating call is issued, with or without
  \<open>--dry-run\<close>.
\<close>

theorem move_to_trash_forbidden:
  assumes "resolveMailbox target = Some mb"
    and "Role mb = Some ''trash''
         \<or> map asciiLower (Name mb) = ''trash''
         \<or> map asciiLower (Name mb) = ''deleted items''
         \<or> map asciiLower (Name mb) = ''deleted messages''"
  shows "moveEmails resolveMailbox dryRun target ids
           = (Inl (Rejected ForbiddenDestination), [MailboxGet target])
       \<and> \<not> list_ex isMutation (snd (moveEmails resolveMailbox dryRun target ids))"
proof -
  from assms(2) have "ValidateTargetMailbox mb = Inl ForbiddenDestination"
    by (simp only: ValidateTargetMailbox_forbidden)
  with assms(1) show ?thesis by (simp add: moveEmails_def)
qed

theorem move_to_trash_forbidden_witness:
  "moveEmails sampleMailboxes False ''old'' [''M1'']
     = (Inl (Rejected ForbiddenDestination), [MailboxGet ''old''])
   \<and> moveEmails sampleMailboxes True ''Trash'' [''M1'', ''M2'']
     = (Inl (Rejected ForbiddenDestination), [MailboxGet ''Trash''])"
proof -
  have a: "sampleMailboxes ''old'' = Some \<lparr>ID = ''mb-old'', Name = ''DELETED Items'', Role = None\<rparr>"
    by (simp add: sampleMailboxes_def)
  have b: "sampleMailboxes ''Trash'' = Some \<lparr>ID = ''mb-trash'', Name = ''Trash'', Role = Some ''trash''\<rparr>"
    by (simp add: sampleMailboxes_def)
  have a2: "Role \<lparr>ID = ''mb-old'', Name = ''DELETED Items'', Role = None\<rparr> = Some ''trash''
      \<or> map asciiLower (Name \<lparr>ID = ''mb-old'', Name = ''DELETED Items'', Role = None\<rparr>) = ''trash''
      \<or> map asciiLower (Name \<lparr>ID = ''mb-old'', Name = ''DELETED Items'', Role = None\<rparr>) = ''deleted items''
      \<or> map asciiLower (Name \<lparr>ID = ''mb-old'', Name = ''DELETED Items'', Role = None\<rparr>) = ''deleted messages''"
    using sample_lower by (simp only: Mailbox.select_convs simp_thms)
  have b2: "Role \<lparr>ID = ''mb-trash'', Name = ''Trash'', Role = Some ''trash''\<rparr> = Some ''trash''
      \<or> map asciiLower (Name \<lparr>ID = ''mb-trash'', Name = ''Trash'', Role = Some ''trash''\<rparr>) = ''trash''
      \<or> map asciiLower (Name \<lparr>ID = ''mb-trash'', Name = ''Trash'', Role = Some ''trash''\<rparr>) = ''deleted items''
      \<or> map asciiLower (Name \<lparr>ID = ''mb-trash'', Name = ''Trash'', Role = Some ''trash''\<rparr>) = ''deleted messages''"
    by (simp only: Mailbox.select_convs simp_thms)
  show ?thesis
    using move_to_trash_forbidden
        [where resolveMailbox = sampleMailboxes and target = "''old''", OF a a2,
          of False "[''M1'']"]
      move_to_trash_forbidden
        [where resolveMailbox = sampleMailboxes and target = "''Trash''", OF b b2,
          of True "[''M1'', ''M2'']"]
    by (simp only: simp_thms)
qed

text \<open>
  Claim C2. The gate accepts a draft-creation request exactly when Create holds one
  object, the mailboxes of that object are exactly the Drafts mailbox (with value true),
  its keywords hold \<open>$draft\<close> with value true, and Update and Destroy are empty. Every
  other request is rejected with \<open>UnsafeDraftRequest\<close> and not sent; an accepted request
  is sent as it is.
\<close>

theorem ValidateSetForDraft_iff:
  "(ValidateSetForDraft req draftsMailboxID = Inr () \<longleftrightarrow>
      (\<exists>k e. Create req = fmupd k e fmempty
          \<and> MailboxIDs e = fmupd draftsMailboxID True fmempty
          \<and> fmlookup (Keywords e) ''$draft'' = Some True)
      \<and> Update req = fmempty \<and> Destroy req = [])
   \<and> (ValidateSetForDraft req draftsMailboxID \<noteq> Inr () \<longrightarrow>
        ValidateSetForDraft req draftsMailboxID = Inl UnsafeDraftRequest
        \<and> sendDraftRequest req draftsMailboxID = (Inl UnsafeDraftRequest, []))
   \<and> (ValidateSetForDraft req draftsMailboxID = Inr () \<longrightarrow>
        sendDraftRequest req draftsMailboxID = (Inr (), [req]))"
proof (intro conjI)
  show "ValidateSetForDraft req draftsMailboxID = Inr () \<longleftrightarrow>
      (\<exists>k e. Create req = fmupd k e fmempty
          \<and> MailboxIDs e = fmupd draftsMailboxID True fmempty
          \<and> fmlookup (Keywords e) ''$draft'' = Some True)
      \<and> Update req = fmempty \<and> Destroy req = []"
  proof (cases "\<exists>k e. Create req = fmupd k e fmempty")
    case True
    then obtain k e where c: "Create req = fmupd k e fmempty" by (elim exE)
    have one: "fcard (fmdom (fmupd k e (fmempty :: (string, DraftEmail) fmap))) = 1"
      by (simp add: fcard_finsert_if)
    have ex: "(\<exists>k' e'. Create req = fmupd k' e' fmempty
          \<and> MailboxIDs e' = fmupd draftsMailboxID True fmempty
          \<and> fmlookup (Keywords e') ''$draft'' = Some True)
        \<longleftrightarrow> MailboxIDs e = fmupd draftsMailboxID True fmempty
          \<and> fmlookup (Keywords e) ''$draft'' = Some True"
      unfolding c singleton_map_eq by auto
    show ?thesis
      unfolding ex ValidateSetForDraft_accepts
      by (simp only: one c fmpred_singleton exactly_singleton_map fmdom_empty_iff simp_thms) blast
  next
    case False
    then have "fcard (fmdom (Create req)) \<noteq> 1" by (simp only: fcard_fmdom_1_iff not_False_eq_True)
    with False show ?thesis unfolding ValidateSetForDraft_accepts by blast
  qed
next
  show "ValidateSetForDraft req draftsMailboxID \<noteq> Inr () \<longrightarrow>
        ValidateSetForDraft req draftsMailboxID = Inl UnsafeDraftRequest
        \<and> sendDraftRequest req draftsMailboxID = (Inl UnsafeDraftRequest, [])"
  proof (intro impI)
    assume "ValidateSetForDraft req draftsMailboxID \<noteq> Inr ()"
    then have "ValidateSetForDraft req draftsMailboxID = Inl UnsafeDraftRequest"
      by (rule ValidateSetForDraft_rejects)
    then show "ValidateSetForDraft req draftsMailboxID = Inl UnsafeDraftRequest
        \<and> sendDraftRequest req draftsMailboxID = (Inl UnsafeDraftRequest, [])"
      by (simp add: sendDraftRequest_def)
  qed
next
  show "ValidateSetForDraft req draftsMailboxID = Inr () \<longrightarrow>
        sendDraftRequest req draftsMailboxID = (Inr (), [req])"
    by (simp add: sendDraftRequest_def)
qed

theorem ValidateSetForDraft_iff_witness:
  "ValidateSetForDraft sampleDraft ''mb-drafts'' = Inr ()
   \<and> sendDraftRequest sampleDraft ''mb-drafts'' = (Inr (), [sampleDraft])
   \<and> ValidateSetForDraft sampleDraftInInbox ''mb-drafts'' = Inl UnsafeDraftRequest
   \<and> sendDraftRequest sampleDraftInInbox ''mb-drafts'' = (Inl UnsafeDraftRequest, [])"
proof -
  have a: "(\<exists>k e. Create sampleDraft = fmupd k e fmempty
          \<and> MailboxIDs e = fmupd ''mb-drafts'' True fmempty
          \<and> fmlookup (Keywords e) ''$draft'' = Some True)
      \<and> Update sampleDraft = fmempty \<and> Destroy sampleDraft = []"
    unfolding sampleDraft_def
    by (intro conjI exI [of _ "''draft''"]
          exI [of _ "\<lparr>MailboxIDs = fmupd ''mb-drafts'' True fmempty,
            Keywords = fmupd ''$draft'' True (fmupd ''$seen'' True fmempty)\<rparr>"])
       simp_all
  have b: "ValidateSetForDraft sampleDraftInInbox ''mb-drafts'' \<noteq> Inr ()"
    by code_simp
  from a have ok: "ValidateSetForDraft sampleDraft ''mb-drafts'' = Inr ()"
    using ValidateSetForDraft_iff [of sampleDraft "''mb-drafts''"] by blast
  from ok have sent: "sendDraftRequest sampleDraft ''mb-drafts'' = (Inr (), [sampleDraft])"
    using ValidateSetForDraft_iff [of sampleDraft "''mb-drafts''"] by blast
  from b have rej: "ValidateSetForDraft sampleDraftInInbox ''mb-drafts'' = Inl UnsafeDraftRequest
     \<and> sendDraftRequest sampleDraftInInbox ''mb-drafts'' = (Inl UnsafeDraftRequest, [])"
    using ValidateSetForDraft_iff [of sampleDraftInInbox "''mb-drafts''"] by blast
  from ok sent rej show ?thesis by (simp only: simp_thms)
qed

end
